theory Spec2Isabelle
  imports Complex_Main "HOL-Library.Word"
begin


section \<open>Hours calculation (\<^verbatim>\<open>calculateHours\<close>, time routes)\<close>

text \<open>
  JavaScript numbers are modelled as rationals. Inside \<^verbatim>\<open>calculateHours\<close> this is
  exact: \<^verbatim>\<open>totalMinutes\<close> is an integer, \<^verbatim>\<open>totalMinutes / 60 * 4\<close> is the double nearest to
  \<^verbatim>\<open>totalMinutes / 15\<close> (multiplying by 4 is exact), which is an integer when 15 divides
  \<^verbatim>\<open>totalMinutes\<close> and otherwise is at least 1/15 away from every integer, so that
  \<^verbatim>\<open>Math.ceil\<close> returns the ceiling of the exact quotient; all later values are multiples
  of 1/4 below 24, which doubles represent exactly. Only \<^verbatim>\<open>majorationFeriee\<close> is an
  arbitrary number; for it the model is the decimal value that \<^verbatim>\<open>toFixed(2)\<close> prints.
\<close>

subsection \<open>Parsing \<^verbatim>\<open>'HH:MM'\<close>\<close>

text \<open>\<^verbatim>\<open>time.split(':')\<close>: the pieces between the separators; never empty.\<close>

fun split_js :: "char \<Rightarrow> string \<Rightarrow> string list" where
  "split_js sep [] = [[]]"
| "split_js sep (c # cs) =
     (if c = sep then [] # split_js sep cs
      else (case split_js sep cs of
              [] \<Rightarrow> [[c]]
            | p # ps \<Rightarrow> (c # p) # ps))"

definition digit_of :: "char \<Rightarrow> int option" where
  "digit_of c = map_of (zip ''0123456789'' [0, 1, 2, 3, 4, 5, 6, 7, 8, 9]) c"

text \<open>
  \<^verbatim>\<open>Number(s)\<close> on the pieces of a time string: a run of decimal digits is its value
  (no octal reading of a leading zero) and the empty string is 0. \<open>None\<close> stands for every
  other string: there JavaScript yields \<^verbatim>\<open>NaN\<close> or reads another numeric form (a sign, a
  fraction, an exponent, blanks); none of them occurs in a string that the attendance
  schemas accept, and the model does not follow them.
\<close>

fun Number_digits :: "int \<Rightarrow> string \<Rightarrow> int option" where
  "Number_digits acc [] = Some acc"
| "Number_digits acc (c # cs) =
     (case digit_of c of
        None \<Rightarrow> None
      | Some d \<Rightarrow> Number_digits (acc * 10 + d) cs)"

definition Number_js :: "string \<Rightarrow> int option" where
  "Number_js s = Number_digits 0 s"

text \<open>
  \<^verbatim>\<open>const [hours, minutes] = time.split(':').map(Number); return hours * 60 + minutes\<close>.
  With fewer than two pieces \<^verbatim>\<open>minutes\<close> is \<^verbatim>\<open>undefined\<close> and the sum is \<^verbatim>\<open>NaN\<close>
  (\<open>None\<close>); further pieces (the seconds of a stored time) are ignored.
\<close>

definition timeToMinutes :: "string \<Rightarrow> int option" where
  "timeToMinutes time =
     (case split_js CHR '':'' time of
        h # m # rest \<Rightarrow>
          (case Number_js h of
             None \<Rightarrow> None
           | Some hours \<Rightarrow>
               (case Number_js m of
                  None \<Rightarrow> None
                | Some minutes \<Rightarrow> Some (hours * 60 + minutes)))
      | _ \<Rightarrow> None)"

text \<open>
  The format that \<^verbatim>\<open>checkinSchema\<close> and \<^verbatim>\<open>checkoutSchema\<close> accept:
  \<^verbatim>\<open>/^([0-1]?[0-9]|2[0-3]):[0-5][0-9]$/\<close>.
\<close>

definition is_digit :: "char \<Rightarrow> bool" where
  "is_digit c = (digit_of c \<noteq> None)"

definition char_in :: "char \<Rightarrow> string \<Rightarrow> bool" where
  "char_in c cs = (c \<in> set cs)"

fun hhmm :: "string \<Rightarrow> bool" where
  "hhmm [a, b, c, d, e] =
     (((char_in a ''01'' \<and> is_digit b) \<or> (a = CHR ''2'' \<and> char_in b ''0123''))
      \<and> c = CHR '':'' \<and> char_in d ''012345'' \<and> is_digit e)"
| "hhmm [b, c, d, e] =
     (is_digit b \<and> c = CHR '':'' \<and> char_in d ''012345'' \<and> is_digit e)"
| "hhmm _ = False"

subsection \<open>The computation\<close>

record hours_result =
  totalHours :: rat
  heures_normales :: rat
  heures_sup_15 :: rat
  heures_sup_40 :: rat
  heures_supplementaires :: rat
  majoration_pourcentage :: rat
  panierRepas :: bool

text \<open>
  \<^verbatim>\<open>parseFloat(x.toFixed(2))\<close>: the multiple of 1/100 nearest to \<open>x\<close>; \<^verbatim>\<open>toFixed\<close> rounds
  the absolute value, taking the larger candidate at a tie, and puts the sign back.
\<close>

definition toFixed2 :: "rat \<Rightarrow> rat" where
  "toFixed2 x =
     (if x < 0 then - (of_int \<lfloor>(- x) * 100 + 1 / 2\<rfloor> / 100)
      else of_int \<lfloor>x * 100 + 1 / 2\<rfloor> / 100)"

text \<open>
  The local \<^verbatim>\<open>totalHours\<close> of the source (the unrounded decimal hours) is named
  \<open>rawHours\<close> here, since \<open>totalHours\<close> is the field of the result.
\<close>

definition calculateHours ::
  "string \<Rightarrow> string \<Rightarrow> bool \<Rightarrow> bool \<Rightarrow> rat \<Rightarrow> hours_result option" where
  "calculateHours heure_entree heure_sortie isHoliday isSunday majorationFeriee =
     (case timeToMinutes heure_sortie of
        None \<Rightarrow> None
      | Some sortie \<Rightarrow>
     (case timeToMinutes heure_entree of
        None \<Rightarrow> None
      | Some entree \<Rightarrow>
     (let totalMinutes = sortie - entree;
          rawHours = (of_int totalMinutes :: rat) / 60;
          totalHoursRounded = (of_int \<lceil>rawHours * 4\<rceil> :: rat) / 4;
          baseNormalHours = (8 :: rat);
          normalHours = min totalHoursRounded baseNormalHours;
          overtimeHours = max 0 (totalHoursRounded - baseNormalHours);
          panier = (totalHoursRounded \<ge> 10);
          special = (\<lambda>majoration.
             \<lparr> totalHours = totalHoursRounded,
               heures_normales = toFixed2 0,
               heures_sup_15 = 0,
               heures_sup_40 = 0,
               heures_supplementaires = toFixed2 totalHoursRounded,
               majoration_pourcentage = toFixed2 majoration,
               panierRepas = panier \<rparr>)
      in Some
        (if isHoliday \<and> isSunday then special 100
         else if isHoliday then special majorationFeriee
         else if isSunday then special 60
         else
           (let overtime15 = min overtimeHours 2;
                overtime40 = max 0 (overtimeHours - 2)
            in \<lparr> totalHours = totalHoursRounded,
                 heures_normales = toFixed2 normalHours,
                 heures_sup_15 = toFixed2 overtime15,
                 heures_sup_40 = toFixed2 overtime40,
                 heures_supplementaires = toFixed2 (overtime15 + overtime40),
                 majoration_pourcentage = 0,
                 panierRepas = panier \<rparr>)))))"

text \<open>Auxiliary notions for the statements: multiples of a quarter, and the rounded duration.\<close>

definition quarter :: "rat \<Rightarrow> bool" where
  "quarter x = (\<exists>k::int. x = of_int k / 4)"

definition rounded_hours :: "int \<Rightarrow> int \<Rightarrow> rat" where
  "rounded_hours entree sortie = of_int \<lceil>(of_int (sortie - entree) :: rat) / 60 * 4\<rceil> / 4"


section \<open>The relational store and the request context\<close>

text \<open>
  A table is the list of its rows in insertion order; \<^verbatim>\<open>SELECT ... WHERE\<close> is a filter,
  \<^verbatim>\<open>UPDATE ... WHERE\<close> maps over the matching rows and \<^verbatim>\<open>INSERT\<close> appends a row. A
  handler is a function from the store to the reply and the store after the request: on
  every path that rolls back, or that returns before the first write, the store is returned
  as it was. One request is one atomic step, so interleavings of concurrent requests and the
  isolation level are outside the model. So are failures of the store itself (a constraint
  of the table definitions, a lost connection): the handlers catch them, roll back and
  answer 500. The tables \<^verbatim>\<open>employee_personal\<close> and \<^verbatim>\<open>employee_contact\<close> occur in no
  statement and are left out.

  A string is the sequence of its UTF-16 code units, as in JavaScript: \<^verbatim>\<open>s.length\<close> is the
  length of the list, \<^verbatim>\<open>===\<close> is equality and the empty string is the only falsy one.
  \<open>js\<close> writes a literal of the sources from its ASCII characters; the accented letters of
  the literals are single code units.

  A \<open>date\<close> is a calendar day, as \<^verbatim>\<open>CURDATE()\<close> gives it: the number of the day, so that
  \<^verbatim>\<open>- INTERVAL 1 DAY\<close> subtracts one. An \<open>instant\<close> is a date of a request body, a
  JavaScript \<^verbatim>\<open>Date\<close>: the number of milliseconds since the epoch.

  The types and collations of the columns are not part of the sources. The store is taken
  to give a string, a number or an instant back as it was written, and to compare strings
  by equality, as a binary collation does.
\<close>

type_synonym date = int

type_synonym instant = int

type_synonym js_string = "16 word list"

definition js :: "string \<Rightarrow> js_string" where
  "js s = map of_char s"

definition e_acute :: js_string where
  "e_acute = [0xE9]"

definition a_grave :: js_string where
  "a_grave = [0xE0]"

datatype statut = Actif | Conge | Maladie | Suspendu | Licencie

text \<open>The six placement columns of \<^verbatim>\<open>employees\<close>, also the shape of a history snapshot.\<close>

record placement =
  site_id :: int
  department_id :: int
  service_id :: int
  team_id :: int
  position :: js_string
  fonction :: js_string

record employee = placement +
  e_id :: int
  matricule :: js_string
  nom :: js_string
  prenom :: js_string
  statut :: statut
  user_id :: "int option"
  position_id :: "int option"

text \<open>
  A row of \<^verbatim>\<open>employee_affectations\<close>. The six \<^verbatim>\<open>*_ancien\<close> columns are written
  together or not at all, so they are one optional snapshot.
\<close>

record affectation =
  a_employee_id :: int
  date_debut :: date
  date_fin :: "date option"
  motif :: "js_string option"
  commentaire :: "js_string option"
  created_by_user_id :: int
  ancien :: "placement option"
  nouveau :: placement

record leave_request =
  lr_id :: int
  lr_employee_id :: int
  lr_type_conge :: js_string
  lr_date_debut :: instant
  lr_date_fin :: instant
  lr_nb_jours :: rat
  lr_motif_employe :: "js_string option"
  statut_actuel :: js_string

record leave_validation =
  request_id :: int
  validateur_id :: int
  niveau_validation :: js_string
  decision :: js_string
  lv_commentaire :: js_string

datatype type_contrat = CDI | CDD | Stage | Consultant | Saisonnier | Apprentissage

record contract =
  c_id :: int
  c_employee_id :: int
  c_type_contrat :: type_contrat
  c_date_debut :: instant
  c_date_fin_prevue :: "instant option"
  c_position_id :: int
  c_salaire_de_base :: rat
  c_is_avenant :: bool
  c_parent_contract_id :: "int option"
  c_statut :: js_string

record db =
  sites :: "int list"
  departments :: "int list"
  services :: "int list"
  teams :: "int list"
  employees :: "employee list"
  employee_affectations :: "affectation list"
  leave_requests :: "leave_request list"
  leave_validations :: "leave_validation list"
  contracts :: "contract list"

text \<open>
  What a request brings besides its body: \<^verbatim>\<open>req.user.id\<close> set by the authentication
  middleware, the store's \<^verbatim>\<open>CURDATE()\<close> and the instant \<^verbatim>\<open>'now'\<close> of the validator.
\<close>

record ctx =
  user :: int
  today :: date
  now :: instant

text \<open>
  What the sources leave to the deployment. The table definitions are not part of the
  sources: the defaults of the columns \<^verbatim>\<open>employees.statut\<close> and \<^verbatim>\<open>contracts.statut\<close>,
  which the \<^verbatim>\<open>INSERT\<close> statements do not set, are parameters. \<open>found_rows\<close> tells what the
  client reports in \<^verbatim>\<open>affectedRows\<close> for an \<^verbatim>\<open>UPDATE\<close>: the rows matched by the
  \<^verbatim>\<open>WHERE\<close> clause (the connection flag \<^verbatim>\<open>FOUND_ROWS\<close>, which the pool of
  \<^verbatim>\<open>config/db.js\<close> does not switch off) or only the rows whose values changed.
\<close>

record env =
  employees_statut_default :: statut
  contracts_statut_default :: js_string
  found_rows :: bool

datatype body_json =
    Message
  | EmployeeId int
  | AffectationChanged bool
  | RequestId int
  | ContractId int

datatype reply = Reply (http_status: nat) (body: body_json)

text \<open>\<^verbatim>\<open>result.insertId\<close> of an auto-increment key; no route deletes a row.\<close>

definition insertId :: "int list \<Rightarrow> int" where
  "insertId ids = fold max ids 0 + 1"

text \<open>Truthiness of an optional number or string of a validated body.\<close>

definition truthy_num :: "int option \<Rightarrow> bool" where
  "truthy_num v = (case v of None \<Rightarrow> False | Some n \<Rightarrow> n \<noteq> 0)"

definition truthy_str :: "js_string option \<Rightarrow> bool" where
  "truthy_str v = (case v of None \<Rightarrow> False | Some s \<Rightarrow> s \<noteq> [])"

text \<open>\<^verbatim>\<open>a || b\<close> on numbers and on strings.\<close>

definition or_num :: "int option \<Rightarrow> int \<Rightarrow> int" where
  "or_num v d = (case v of None \<Rightarrow> d | Some n \<Rightarrow> if n \<noteq> 0 then n else d)"

definition or_str :: "js_string option \<Rightarrow> js_string \<Rightarrow> js_string" where
  "or_str v d = (case v of None \<Rightarrow> d | Some s \<Rightarrow> if s \<noteq> [] then s else d)"

section \<open>The rules of the validator\<close>

text \<open>
  The rules of the validation library that the schemas of the routes are built from.
  \<^verbatim>\<open>Joi.number()\<close> refuses a number outside the range of the safe integers,
  \<^verbatim>\<open>Number.MIN_SAFE_INTEGER\<close> to \<^verbatim>\<open>Number.MAX_SAFE_INTEGER\<close>, whether or not
  \<^verbatim>\<open>integer()\<close> is asked for; \<^verbatim>\<open>min(m)\<close> adds a lower bound. \<^verbatim>\<open>Joi.string()\<close> refuses the
  empty string, and \<^verbatim>\<open>max(n)\<close> bounds \<^verbatim>\<open>s.length\<close>. \<^verbatim>\<open>Joi.date().iso()\<close> turns the text of
  a date into a \<^verbatim>\<open>Date\<close> and refuses it when there is none: a \<^verbatim>\<open>Date\<close> is at most
  8.64e15 milliseconds away from the epoch. A body field typed \<open>int\<close> holds a number that
  passes \<^verbatim>\<open>integer()\<close>.
\<close>

definition MAX_SAFE_INTEGER :: int where
  "MAX_SAFE_INTEGER = 2 ^ 53 - 1"

definition number_integer :: "int \<Rightarrow> bool" where
  "number_integer n = (- MAX_SAFE_INTEGER \<le> n \<and> n \<le> MAX_SAFE_INTEGER)"

definition number_integer_min :: "int \<Rightarrow> int \<Rightarrow> bool" where
  "number_integer_min m n = (number_integer n \<and> m \<le> n)"

definition number_min :: "rat \<Rightarrow> rat \<Rightarrow> bool" where
  "number_min m x =
     (- of_int MAX_SAFE_INTEGER \<le> x \<and> x \<le> of_int MAX_SAFE_INTEGER \<and> m \<le> x)"

definition date_iso :: "instant \<Rightarrow> bool" where
  "date_iso t = (- 8640000000000000 \<le> t \<and> t \<le> 8640000000000000)"

definition string_required :: "js_string \<Rightarrow> bool" where
  "string_required s = (s \<noteq> [])"

definition string_max :: "nat \<Rightarrow> js_string \<Rightarrow> bool" where
  "string_max n s = (s \<noteq> [] \<and> length s \<le> n)"

definition opt_ok :: "('a \<Rightarrow> bool) \<Rightarrow> 'a option \<Rightarrow> bool" where
  "opt_ok P v = (case v of None \<Rightarrow> True | Some x \<Rightarrow> P x)"

section \<open>Employee routes\<close>

subsection \<open>\<^verbatim>\<open>POST /api/employee\<close>\<close>

record employee_creation =
  n_matricule :: js_string
  n_nom :: js_string
  n_prenom :: js_string
  n_site_id :: int
  n_department_id :: int
  n_service_id :: int
  n_team_id :: int
  n_position :: js_string
  n_fonction :: js_string
  n_user_id :: "int option"
  n_autres_valides :: bool

text \<open>
  \<^verbatim>\<open>employeeCreationSchema\<close>. \<open>n_autres_valides\<close> says whether the fields that go to the
  tables left out (\<^verbatim>\<open>genre\<close>, \<^verbatim>\<open>date_naissance\<close>, the telephone numbers, the emergency
  contact) pass their rules.
\<close>

definition employeeCreationSchema :: "employee_creation \<Rightarrow> bool" where
  "employeeCreationSchema v =
     (string_max 50 (n_matricule v) \<and>
      string_required (n_nom v) \<and> string_required (n_prenom v) \<and>
      number_integer_min 1 (n_site_id v) \<and> number_integer_min 1 (n_department_id v) \<and>
      number_integer_min 1 (n_service_id v) \<and> number_integer_min 1 (n_team_id v) \<and>
      string_max 255 (n_position v) \<and> string_max 255 (n_fonction v) \<and>
      opt_ok number_integer (n_user_id v) \<and>
      n_autres_valides v)"

definition initial_placement :: "employee_creation \<Rightarrow> placement" where
  "initial_placement v =
     \<lparr> site_id = n_site_id v, department_id = n_department_id v, service_id = n_service_id v,
       team_id = n_team_id v, position = n_position v, fonction = n_fonction v \<rparr>"

text \<open>
  Modelled from the spec: the column default of \<^verbatim>\<open>employee_affectations.date_fin\<close>, which
  no \<^verbatim>\<open>INSERT\<close> sets, is \<^verbatim>\<open>NULL\<close> (``\<^verbatim>\<open>date_fin\<close> (nullable = open/current)'', ``insert
  exactly one history record with \<^verbatim>\<open>date_fin = NULL\<close>''); the same holds for the columns
  \<^verbatim>\<open>commentaire\<close> and \<^verbatim>\<open>*_ancien\<close> at hiring.
\<close>

definition hire_history :: "ctx \<Rightarrow> employee_creation \<Rightarrow> int \<Rightarrow> affectation" where
  "hire_history cx v employeeId =
     \<lparr> a_employee_id = employeeId, date_debut = today cx, date_fin = None,
       motif = Some (js ''Embauche initiale''), commentaire = None,
       created_by_user_id = user cx, ancien = None, nouveau = initial_placement v \<rparr>"

definition create_employee :: "env \<Rightarrow> ctx \<Rightarrow> employee_creation \<Rightarrow> db \<Rightarrow> reply \<times> db" where
  "create_employee cfg cx v db =
     (if \<not> employeeCreationSchema v then (Reply 400 Message, db)
      else if filter (\<lambda>e. matricule e = n_matricule v) (employees db) \<noteq> [] then
        (Reply 409 Message, db)
      else if n_site_id v \<notin> set (sites db) \<or> n_department_id v \<notin> set (departments db)
              \<or> n_service_id v \<notin> set (services db) \<or> n_team_id v \<notin> set (teams db) then
        (Reply 400 Message, db)
      else
        (let employeeId = insertId (map e_id (employees db));
             row = \<lparr> site_id = n_site_id v, department_id = n_department_id v,
                     service_id = n_service_id v, team_id = n_team_id v,
                     position = n_position v, fonction = n_fonction v,
                     e_id = employeeId, matricule = n_matricule v, nom = n_nom v,
                     prenom = n_prenom v, statut = employees_statut_default cfg,
                     user_id = n_user_id v, position_id = None \<rparr>;
             history = hire_history cx v employeeId
         in (Reply 201 (EmployeeId employeeId),
             db \<lparr> employees := employees db @ [row],
                  employee_affectations := employee_affectations db @ [history] \<rparr>)))"

subsection \<open>\<^verbatim>\<open>PUT /api/employee/:id\<close>\<close>

text \<open>
  The validated body. A field is \<open>None\<close> when the key is absent; \<^verbatim>\<open>user_id\<close> and
  \<^verbatim>\<open>commentaire_changement\<close> may also be present with the value \<^verbatim>\<open>null\<close> (\<open>Some None\<close>).
  \<open>u_autres_presents\<close> and \<open>u_autres_valides\<close> stand for the personal and contact fields.
\<close>

record employee_update =
  u_matricule :: "js_string option"
  u_nom :: "js_string option"
  u_prenom :: "js_string option"
  u_site_id :: "int option"
  u_department_id :: "int option"
  u_service_id :: "int option"
  u_team_id :: "int option"
  u_position :: "js_string option"
  u_fonction :: "js_string option"
  u_statut :: "statut option"
  u_user_id :: "int option option"
  motif_changement :: "js_string option"
  commentaire_changement :: "js_string option option"
  u_autres_presents :: bool
  u_autres_valides :: bool

definition employeeUpdateSchema :: "employee_update \<Rightarrow> bool" where
  "employeeUpdateSchema v =
     (opt_ok (string_max 50) (u_matricule v) \<and>
      opt_ok string_required (u_nom v) \<and> opt_ok string_required (u_prenom v) \<and>
      opt_ok (number_integer_min 1) (u_site_id v) \<and>
      opt_ok (number_integer_min 1) (u_department_id v) \<and>
      opt_ok (number_integer_min 1) (u_service_id v) \<and>
      opt_ok (number_integer_min 1) (u_team_id v) \<and>
      opt_ok (string_max 255) (u_position v) \<and>
      opt_ok (string_max 255) (u_fonction v) \<and>
      opt_ok (string_max 255) (motif_changement v) \<and>
      opt_ok (opt_ok number_integer) (u_user_id v) \<and>
      u_autres_valides v \<and>
      (u_matricule v \<noteq> None \<or> u_nom v \<noteq> None \<or> u_prenom v \<noteq> None \<or> u_site_id v \<noteq> None
       \<or> u_department_id v \<noteq> None \<or> u_service_id v \<noteq> None \<or> u_team_id v \<noteq> None
       \<or> u_position v \<noteq> None \<or> u_fonction v \<noteq> None \<or> u_statut v \<noteq> None
       \<or> u_user_id v \<noteq> None \<or> motif_changement v \<noteq> None
       \<or> commentaire_changement v \<noteq> None \<or> u_autres_presents v))"

text \<open>
  \<^verbatim>\<open>isAffectationChange\<close>, as the condition of the two \<^verbatim>\<open>if\<close> statements reads it (the
  reply carries the value itself, which is \<^verbatim>\<open>undefined\<close> rather than \<^verbatim>\<open>false\<close> when the
  last operand has an absent field).
\<close>

definition isAffectationChange :: "employee_update \<Rightarrow> employee \<Rightarrow> bool" where
  "isAffectationChange fieldsToUpdate currentEmployee =
     ((truthy_num (u_site_id fieldsToUpdate)
         \<and> u_site_id fieldsToUpdate \<noteq> Some (site_id currentEmployee)) \<or>
      (truthy_num (u_department_id fieldsToUpdate)
         \<and> u_department_id fieldsToUpdate \<noteq> Some (department_id currentEmployee)) \<or>
      (truthy_num (u_service_id fieldsToUpdate)
         \<and> u_service_id fieldsToUpdate \<noteq> Some (service_id currentEmployee)) \<or>
      (truthy_num (u_team_id fieldsToUpdate)
         \<and> u_team_id fieldsToUpdate \<noteq> Some (team_id currentEmployee)) \<or>
      (truthy_str (u_position fieldsToUpdate)
         \<and> u_position fieldsToUpdate \<noteq> Some (position currentEmployee)) \<or>
      (truthy_str (u_fonction fieldsToUpdate)
         \<and> u_fonction fieldsToUpdate \<noteq> Some (fonction currentEmployee)))"

text \<open>The snapshot \<^verbatim>\<open>fieldsToUpdate.x || currentEmployee.x\<close> of the new history record.\<close>

definition new_placement :: "employee_update \<Rightarrow> employee \<Rightarrow> placement" where
  "new_placement fieldsToUpdate currentEmployee =
     \<lparr> site_id = or_num (u_site_id fieldsToUpdate) (site_id currentEmployee),
       department_id = or_num (u_department_id fieldsToUpdate) (department_id currentEmployee),
       service_id = or_num (u_service_id fieldsToUpdate) (service_id currentEmployee),
       team_id = or_num (u_team_id fieldsToUpdate) (team_id currentEmployee),
       position = or_str (u_position fieldsToUpdate) (position currentEmployee),
       fonction = or_str (u_fonction fieldsToUpdate) (fonction currentEmployee) \<rparr>"

definition is_open_of :: "int \<Rightarrow> affectation \<Rightarrow> bool" where
  "is_open_of employeeId r = (a_employee_id r = employeeId \<and> date_fin r = None)"

text \<open>
  \<^verbatim>\<open>UPDATE ... WHERE employee_id = ? AND date_fin IS NULL ORDER BY date_debut DESC LIMIT 1\<close>:
  one open record of the employee with the greatest \<^verbatim>\<open>date_debut\<close> is updated; among several
  with that date the store is free to choose, and the model takes the first of the table.
\<close>

fun update_first :: "('a \<Rightarrow> bool) \<Rightarrow> ('a \<Rightarrow> 'a) \<Rightarrow> 'a list \<Rightarrow> 'a list" where
  "update_first P f [] = []"
| "update_first P f (x # xs) = (if P x then f x # xs else x # update_first P f xs)"

definition latest_open_debut :: "int \<Rightarrow> affectation list \<Rightarrow> date option" where
  "latest_open_debut employeeId rows =
     (case filter (is_open_of employeeId) rows of
        [] \<Rightarrow> None
      | r # rs \<Rightarrow> Some (fold max (map date_debut rs) (date_debut r)))"

definition closing_comment :: "js_string \<Rightarrow> js_string" where
  "closing_comment reason =
     js ''Affectation termin'' @ e_acute @ js ''e suite '' @ a_grave @ js '': '' @ reason"

definition closed_by_change :: "ctx \<Rightarrow> js_string \<Rightarrow> affectation \<Rightarrow> affectation" where
  "closed_by_change cx reason r =
     r \<lparr> date_fin := Some (today cx - 1),
         commentaire := Some (closing_comment reason),
         created_by_user_id := user cx \<rparr>"

definition close_previous :: "ctx \<Rightarrow> int \<Rightarrow> js_string \<Rightarrow> affectation list \<Rightarrow> affectation list" where
  "close_previous cx employeeId reason rows =
     (case latest_open_debut employeeId rows of
        None \<Rightarrow> rows
      | Some d \<Rightarrow>
          update_first (\<lambda>r. is_open_of employeeId r \<and> date_debut r = d)
            (closed_by_change cx reason) rows)"

text \<open>\<^verbatim>\<open>fieldsToUpdate.commentaire_changement || null\<close>.\<close>

definition comment_or_null :: "js_string option option \<Rightarrow> js_string option" where
  "comment_or_null v =
     (case v of
        Some (Some s) \<Rightarrow> if s \<noteq> [] then Some s else None
      | _ \<Rightarrow> None)"

definition new_affectation :: "ctx \<Rightarrow> int \<Rightarrow> employee_update \<Rightarrow> employee \<Rightarrow> affectation" where
  "new_affectation cx employeeId fieldsToUpdate currentEmployee =
     \<lparr> a_employee_id = employeeId, date_debut = today cx, date_fin = None,
       motif = motif_changement fieldsToUpdate,
       commentaire = comment_or_null (commentaire_changement fieldsToUpdate),
       created_by_user_id = user cx,
       ancien = Some (placement.truncate currentEmployee),
       nouveau = new_placement fieldsToUpdate currentEmployee \<rparr>"

text \<open>
  \<^verbatim>\<open>buildUpdateQuery(employeeFields, 'employees', employeeId)\<close>: \<open>None\<close> when no column of
  \<^verbatim>\<open>employees\<close> is among the keys, otherwise the assignment \<^verbatim>\<open>SET field = ?\<close> of every
  field that is not \<^verbatim>\<open>undefined\<close>, as a function on the row.
\<close>

definition set_field :: "'a option \<Rightarrow> 'a \<Rightarrow> 'a" where
  "set_field v old = (case v of None \<Rightarrow> old | Some x \<Rightarrow> x)"

definition buildUpdateQuery :: "employee_update \<Rightarrow> (employee \<Rightarrow> employee) option" where
  "buildUpdateQuery fieldsToUpdate =
     (if u_matricule fieldsToUpdate = None \<and> u_nom fieldsToUpdate = None
         \<and> u_prenom fieldsToUpdate = None \<and> u_site_id fieldsToUpdate = None
         \<and> u_department_id fieldsToUpdate = None \<and> u_service_id fieldsToUpdate = None
         \<and> u_team_id fieldsToUpdate = None \<and> u_position fieldsToUpdate = None
         \<and> u_fonction fieldsToUpdate = None \<and> u_statut fieldsToUpdate = None
         \<and> u_user_id fieldsToUpdate = None
      then None
      else Some (\<lambda>e. e
        \<lparr> site_id := set_field (u_site_id fieldsToUpdate) (site_id e),
          department_id := set_field (u_department_id fieldsToUpdate) (department_id e),
          service_id := set_field (u_service_id fieldsToUpdate) (service_id e),
          team_id := set_field (u_team_id fieldsToUpdate) (team_id e),
          position := set_field (u_position fieldsToUpdate) (position e),
          fonction := set_field (u_fonction fieldsToUpdate) (fonction e),
          matricule := set_field (u_matricule fieldsToUpdate) (matricule e),
          nom := set_field (u_nom fieldsToUpdate) (nom e),
          prenom := set_field (u_prenom fieldsToUpdate) (prenom e),
          statut := set_field (u_statut fieldsToUpdate) (statut e),
          user_id := set_field (u_user_id fieldsToUpdate) (user_id e) \<rparr>))"

definition update_where :: "('a \<Rightarrow> bool) \<Rightarrow> ('a \<Rightarrow> 'a) \<Rightarrow> 'a list \<Rightarrow> 'a list" where
  "update_where P f rows = map (\<lambda>r. if P r then f r else r) rows"

definition update_employee :: "ctx \<Rightarrow> int \<Rightarrow> employee_update \<Rightarrow> db \<Rightarrow> reply \<times> db" where
  "update_employee cx employeeId fieldsToUpdate db =
     (if \<not> employeeUpdateSchema fieldsToUpdate then (Reply 400 Message, db)
      else
        (case filter (\<lambda>e. e_id e = employeeId) (employees db) of
           [] \<Rightarrow> (Reply 404 Message, db)
         | currentEmployee # _ \<Rightarrow>
             if isAffectationChange fieldsToUpdate currentEmployee
                \<and> \<not> truthy_str (motif_changement fieldsToUpdate)
             then (Reply 400 Message, db)
             else
               (let db1 =
                      (if isAffectationChange fieldsToUpdate currentEmployee then
                         db \<lparr> employee_affectations :=
                                close_previous cx employeeId
                                  (or_str (motif_changement fieldsToUpdate)
                                     (js ''Mutation/Changement de poste''))
                                  (employee_affectations db)
                                @ [new_affectation cx employeeId fieldsToUpdate currentEmployee] \<rparr>
                       else db);
                    db2 =
                      (case buildUpdateQuery fieldsToUpdate of
                         None \<Rightarrow> db1
                       | Some assign \<Rightarrow>
                           db1 \<lparr> employees :=
                                  update_where (\<lambda>e. e_id e = employeeId) assign (employees db1) \<rparr>)
                in (Reply 200
                      (AffectationChanged (isAffectationChange fieldsToUpdate currentEmployee)),
                    db2))))"

subsection \<open>\<^verbatim>\<open>DELETE /api/employee/:id\<close>\<close>

definition closed_by_archive :: "ctx \<Rightarrow> affectation \<Rightarrow> affectation" where
  "closed_by_archive cx r =
     r \<lparr> date_fin := Some (today cx),
         motif := Some (js ''Licenciement/Archivage par '' @ js ''Proc'' @ e_acute @ js ''dure de d''
                         @ e_acute @ js ''part''),
         created_by_user_id := user cx \<rparr>"

text \<open>
  The first statement is \<^verbatim>\<open>UPDATE employees SET statut = ? WHERE id = ?\<close>; its
  \<^verbatim>\<open>WHERE\<close> clause does not mention the status. \<^verbatim>\<open>result.affectedRows\<close> counts the rows
  with that id, or those of them whose status was another one, as \<open>found_rows\<close> says.
\<close>

definition archive_employee :: "env \<Rightarrow> ctx \<Rightarrow> int \<Rightarrow> db \<Rightarrow> reply \<times> db" where
  "archive_employee cfg cx employeeId db =
     (let matched = filter (\<lambda>e. e_id e = employeeId) (employees db);
          changed = filter (\<lambda>e. statut e \<noteq> Licencie) matched;
          affectedRows = (if found_rows cfg then length matched else length changed)
      in if affectedRows = 0 then (Reply 404 Message, db)
         else
           (let db1 = db \<lparr> employees :=
                             update_where (\<lambda>e. e_id e = employeeId) (\<lambda>e. e \<lparr> statut := Licencie \<rparr>)
                               (employees db) \<rparr>;
                db2 = db1 \<lparr> employee_affectations :=
                              update_where (is_open_of employeeId) (closed_by_archive cx)
                                (employee_affectations db1) \<rparr>;
                db3 = db2 \<lparr> employees :=
                              update_where (\<lambda>e. e_id e = employeeId) (\<lambda>e. e \<lparr> user_id := None \<rparr>)
                                (employees db2) \<rparr>
            in (Reply 200 (EmployeeId employeeId), db3)))"

section \<open>Leave requests: \<^verbatim>\<open>POST /api/time/leaves\<close>\<close>

record leave_submission =
  l_employee_id :: int
  l_type_conge :: js_string
  l_date_debut :: instant
  l_date_fin :: instant
  l_nb_jours :: rat
  l_motif_employe :: "js_string option"

definition leaveRequestSchema :: "ctx \<Rightarrow> leave_submission \<Rightarrow> bool" where
  "leaveRequestSchema cx v =
     (number_integer_min 1 (l_employee_id v) \<and>
      string_max 50 (l_type_conge v) \<and>
      date_iso (l_date_debut v) \<and> now cx \<le> l_date_debut v \<and>
      date_iso (l_date_fin v) \<and> l_date_debut v \<le> l_date_fin v \<and>
      number_min (1 / 2) (l_nb_jours v))"

definition Soumis :: js_string where
  "Soumis = js ''Soumis''"

definition En_attente :: js_string where
  "En_attente = js ''En attente''"

definition Approuve :: js_string where
  "Approuve = js ''Approuv'' @ e_acute"

definition Soumission_Employe :: js_string where
  "Soumission_Employe = js ''Soumission Employ'' @ e_acute"

text \<open>\<^verbatim>\<open>x BETWEEN a AND b\<close>.\<close>

definition between :: "instant \<Rightarrow> instant \<Rightarrow> instant \<Rightarrow> bool" where
  "between x a b = (a \<le> x \<and> x \<le> b)"

text \<open>The \<^verbatim>\<open>WHERE\<close> clause of the overlap query, on one row.\<close>

definition overlap_row :: "leave_submission \<Rightarrow> leave_request \<Rightarrow> bool" where
  "overlap_row v r =
     (lr_employee_id r = l_employee_id v \<and>
      statut_actuel r \<in> set [Soumis, En_attente, Approuve] \<and>
      (between (l_date_debut v) (lr_date_debut r) (lr_date_fin r) \<or>
       between (l_date_fin v) (lr_date_debut r) (lr_date_fin r) \<or>
       between (lr_date_debut r) (l_date_debut v) (l_date_fin v)))"

text \<open>
  The inserted request takes the column default of \<^verbatim>\<open>statut_actuel\<close>, which the source
  gives in a comment (\<^verbatim>\<open>statut par defaut 'Soumis'\<close>).
\<close>

definition create_leave :: "ctx \<Rightarrow> leave_submission \<Rightarrow> db \<Rightarrow> reply \<times> db" where
  "create_leave cx v db =
     (if \<not> leaveRequestSchema cx v then (Reply 400 Message, db)
      else if filter (\<lambda>e. e_id e = l_employee_id v \<and> statut e = Actif) (employees db) = [] then
        (Reply 404 Message, db)
      else if filter (overlap_row v) (leave_requests db) \<noteq> [] then
        (Reply 409 Message, db)
      else
        (let requestId = insertId (map lr_id (leave_requests db));
             request = \<lparr> lr_id = requestId, lr_employee_id = l_employee_id v,
                         lr_type_conge = l_type_conge v, lr_date_debut = l_date_debut v,
                         lr_date_fin = l_date_fin v, lr_nb_jours = l_nb_jours v,
                         lr_motif_employe =
                           (if truthy_str (l_motif_employe v) then l_motif_employe v else None),
                         statut_actuel = Soumis \<rparr>;
             step = \<lparr> request_id = requestId, validateur_id = user cx,
                      niveau_validation = Soumission_Employe, decision = En_attente,
                      lv_commentaire = js ''Demande soumise par l'' @ [0x27] @ js ''employ''
                                        @ e_acute @ js ''.'' \<rparr>
         in (Reply 201 (RequestId requestId),
             db \<lparr> leave_requests := leave_requests db @ [request],
                  leave_validations := leave_validations db @ [step] \<rparr>)))"

section \<open>Contracts: \<^verbatim>\<open>POST /api/hr/contracts\<close>\<close>

text \<open>
  The validated body; \<^verbatim>\<open>is_avenant\<close> has the default \<^verbatim>\<open>false\<close>. \<open>k_parent_contract_id\<close>
  is \<open>None\<close> when the key is absent and \<open>Some None\<close> when it is \<^verbatim>\<open>null\<close>; for the date
  \<^verbatim>\<open>date_fin_prevue\<close> both are \<open>None\<close>. \<open>k_autres_valides\<close> stands for the rules on
  \<^verbatim>\<open>notes_rh\<close> and \<^verbatim>\<open>document_url\<close>, which are stored and not read again.
\<close>

record contract_creation =
  k_employee_id :: int
  k_type_contrat :: type_contrat
  k_date_debut :: instant
  k_date_fin_prevue :: "instant option"
  k_position_id :: int
  k_salaire_de_base :: rat
  k_is_avenant :: bool
  k_parent_contract_id :: "int option option"
  k_autres_valides :: bool

definition contractSchema :: "contract_creation \<Rightarrow> bool" where
  "contractSchema v =
     (number_integer_min 1 (k_employee_id v) \<and>
      date_iso (k_date_debut v) \<and>
      (if k_type_contrat v = CDI then k_date_fin_prevue v = None
       else opt_ok (\<lambda>d. date_iso d \<and> k_date_debut v \<le> d) (k_date_fin_prevue v)) \<and>
      number_integer_min 1 (k_position_id v) \<and>
      number_min 0 (k_salaire_de_base v) \<and>
      opt_ok (opt_ok (number_integer_min 1)) (k_parent_contract_id v) \<and>
      (k_is_avenant v \<longrightarrow> k_parent_contract_id v \<noteq> None) \<and>
      k_autres_valides v)"

definition create_contract :: "env \<Rightarrow> contract_creation \<Rightarrow> db \<Rightarrow> reply \<times> db" where
  "create_contract cfg v db =
     (if \<not> contractSchema v then (Reply 400 Message, db)
      else if filter (\<lambda>e. e_id e = k_employee_id v \<and> statut e = Actif) (employees db) = [] then
        (Reply 404 Message, db)
      else if \<not> k_is_avenant v
              \<and> filter (\<lambda>c. c_employee_id c = k_employee_id v \<and> c_statut c = js ''Actif''
                              \<and> \<not> c_is_avenant c) (contracts db) \<noteq> [] then
        (Reply 409 Message, db)
      else
        (let contractId = insertId (map c_id (contracts db));
             row = \<lparr> c_id = contractId, c_employee_id = k_employee_id v,
                     c_type_contrat = k_type_contrat v, c_date_debut = k_date_debut v,
                     c_date_fin_prevue = k_date_fin_prevue v, c_position_id = k_position_id v,
                     c_salaire_de_base = k_salaire_de_base v, c_is_avenant = k_is_avenant v,
                     c_parent_contract_id =
                       (case k_parent_contract_id v of None \<Rightarrow> None | Some p \<Rightarrow> p),
                     c_statut = contracts_statut_default cfg \<rparr>;
             db1 = db \<lparr> contracts := contracts db @ [row] \<rparr>;
             db2 = (if \<not> k_is_avenant v then
                      db1 \<lparr> employees :=
                             update_where (\<lambda>e. e_id e = k_employee_id v)
                               (\<lambda>e. e \<lparr> position_id := Some (k_position_id v) \<rparr>) (employees db1) \<rparr>
                    else db1)
         in (Reply 201 (ContractId contractId), db2)))"

section \<open>Histories of requests\<close>

text \<open>
  The requests that write to the tables of the model. Of the other routes of the sources,
  \<^verbatim>\<open>POST /sites\<close>, \<^verbatim>\<open>/departments\<close>, \<^verbatim>\<open>/services\<close> and \<^verbatim>\<open>/teams\<close> only add rows to the
  four tables of the structure, which the first store of a history may hold from the start
  (a hiring that is refused for want of such a row leaves the store as it was);
  \<^verbatim>\<open>POST /api/hr/sanctions\<close> writes to a table of its own and, for a dismissal of an existing
  employee, sets the status as the update with \<^verbatim>\<open>statut\<close> alone does; the remaining routes
  write to tables of their own.
\<close>

datatype request =
    Hire ctx employee_creation
  | Update ctx int employee_update
  | Archive ctx int
  | Leave ctx leave_submission
  | Contract contract_creation

fun handle :: "env \<Rightarrow> request \<Rightarrow> db \<Rightarrow> reply \<times> db" where
  "handle cfg (Hire cx v) db = create_employee cfg cx v db"
| "handle cfg (Update cx i v) db = update_employee cx i v db"
| "handle cfg (Archive cx i) db = archive_employee cfg cx i db"
| "handle cfg (Leave cx v) db = create_leave cx v db"
| "handle cfg (Contract v) db = create_contract cfg v db"

text \<open>The store after a sequence of requests, served one after the other.\<close>

fun run :: "env \<Rightarrow> request list \<Rightarrow> db \<Rightarrow> db" where
  "run cfg [] db = db"
| "run cfg (q # qs) db = run cfg qs (snd (handle cfg q db))"

definition empty_db :: "int list \<Rightarrow> int list \<Rightarrow> int list \<Rightarrow> int list \<Rightarrow> db" where
  "empty_db ss ds vs ts =
     \<lparr> sites = ss, departments = ds, services = vs, teams = ts, employees = [],
       employee_affectations = [], leave_requests = [], leave_validations = [],
       contracts = [] \<rparr>"

definition open_records :: "int \<Rightarrow> db \<Rightarrow> affectation list" where
  "open_records employeeId db = filter (is_open_of employeeId) (employee_affectations db)"

definition records_of :: "int \<Rightarrow> db \<Rightarrow> affectation list" where
  "records_of employeeId db =
     filter (\<lambda>r. a_employee_id r = employeeId) (employee_affectations db)"

text \<open>
  ``Some placement-affecting field differs from the current value'', in the words of the
  specification: the field is supplied and its value is not the one of the live row.
\<close>

definition differs :: "'a option \<Rightarrow> 'a \<Rightarrow> bool" where
  "differs v current = (case v of None \<Rightarrow> False | Some x \<Rightarrow> x \<noteq> current)"

definition placement_differs :: "employee_update \<Rightarrow> employee \<Rightarrow> bool" where
  "placement_differs u e =
     (differs (u_site_id u) (site_id e) \<or> differs (u_department_id u) (department_id e) \<or>
      differs (u_service_id u) (service_id e) \<or> differs (u_team_id u) (team_id e) \<or>
      differs (u_position u) (position e) \<or> differs (u_fonction u) (fonction e))"

text \<open>The placement after the update: the supplied value of a field, the old one otherwise.\<close>

definition merged_placement :: "employee_update \<Rightarrow> employee \<Rightarrow> placement" where
  "merged_placement u e =
     \<lparr> site_id = set_field (u_site_id u) (site_id e),
       department_id = set_field (u_department_id u) (department_id e),
       service_id = set_field (u_service_id u) (service_id e),
       team_id = set_field (u_team_id u) (team_id e),
       position = set_field (u_position u) (position e),
       fonction = set_field (u_fonction u) (fonction e) \<rparr>"

text \<open>
  Whether a request, served on the store \<open>db\<close>, archives the employee: it is an archive
  request for the employee and is answered with 200. \<open>archived\<close> says whether some request
  of a sequence, served from \<open>db\<close> on, does.
\<close>

fun archives :: "env \<Rightarrow> db \<Rightarrow> int \<Rightarrow> request \<Rightarrow> bool" where
  "archives cfg db i (Archive cx j) =
     (j = i \<and> http_status (fst (archive_employee cfg cx j db)) = 200)"
| "archives cfg db i _ = False"

fun archived :: "int \<Rightarrow> env \<Rightarrow> request list \<Rightarrow> db \<Rightarrow> bool" where
  "archived i cfg [] db = False"
| "archived i cfg (q # qs) db =
     (archives cfg db i q \<or> archived i cfg qs (snd (handle cfg q db)))"

text \<open>
  The invariant of the history table, for a set \<open>S\<close> of employees that have been archived:
  nobody has two open records, only employees have records that are open, and an employee
  outside \<open>S\<close> has exactly one.
\<close>

definition emp_ids :: "db \<Rightarrow> int set" where
  "emp_ids db = e_id ` set (employees db)"

definition history_inv :: "int set \<Rightarrow> db \<Rightarrow> bool" where
  "history_inv S db =
     (\<forall>i. length (open_records i db) \<le> 1
          \<and> (i \<notin> emp_ids db \<longrightarrow> open_records i db = [])
          \<and> (i \<in> emp_ids db \<and> i \<notin> S \<longrightarrow> length (open_records i db) = 1))"

text \<open>
  Successive updates of one employee, and the condition that each of them is answered with
  200 and \<^verbatim>\<open>affectationChanged: true\<close>.
\<close>

fun changes :: "(ctx \<times> employee_update) list \<Rightarrow> int \<Rightarrow> db \<Rightarrow> db" where
  "changes [] i db = db"
| "changes ((cx, u) # us) i db = changes us i (snd (update_employee cx i u db))"

fun all_changed :: "(ctx \<times> employee_update) list \<Rightarrow> int \<Rightarrow> db \<Rightarrow> bool" where
  "all_changed [] i db = True"
| "all_changed ((cx, u) # us) i db =
     (fst (update_employee cx i u db) = Reply 200 (AffectationChanged True)
      \<and> all_changed us i (snd (update_employee cx i u db)))"

text \<open>The old snapshot of every record but the first is the new snapshot of the one before.\<close>

fun chained :: "affectation list \<Rightarrow> bool" where
  "chained (r # s # rs) = (ancien s = Some (nouveau r) \<and> chained (s # rs))"
| "chained _ = True"

section \<open>Sample data for the instances\<close>

definition cfg0 :: env where
  "cfg0 = \<lparr> employees_statut_default = Actif, contracts_statut_default = js ''Actif'',
            found_rows = True \<rparr>"

definition cfg_changed_rows :: env where
  "cfg_changed_rows = cfg0 \<lparr> found_rows := False \<rparr>"

text \<open>
  Midnight of a day as an instant, and the context of a request that user 7 makes at
  midnight of the day \<open>d\<close>.
\<close>

definition midnight :: "date \<Rightarrow> instant" where
  "midnight d = d * 86400000"

definition day :: "date \<Rightarrow> ctx" where
  "day d = \<lparr> user = 7, today = d, now = midnight d \<rparr>"

definition hire0 :: employee_creation where
  "hire0 = \<lparr> n_matricule = js ''M1'', n_nom = js ''Diop'', n_prenom = js ''Awa'', n_site_id = 1,
             n_department_id = 1, n_service_id = 1, n_team_id = 1, n_position = js ''Agent'',
             n_fonction = js ''Accueil'', n_user_id = Some 3, n_autres_valides = True \<rparr>"

definition upd0 :: employee_update where
  "upd0 = \<lparr> u_matricule = None, u_nom = None, u_prenom = None, u_site_id = None,
            u_department_id = None, u_service_id = None, u_team_id = None, u_position = None,
            u_fonction = None, u_statut = None, u_user_id = None, motif_changement = None,
            commentaire_changement = None, u_autres_presents = False,
            u_autres_valides = True \<rparr>"

definition db0 :: db where
  "db0 = empty_db [1, 2] [1] [1] [1]"

text \<open>The store after one hiring on day 100.\<close>

definition db_hired :: db where
  "db_hired = run cfg0 [Hire (day 100) hire0] db0"

definition leave0 :: leave_submission where
  "leave0 = \<lparr> l_employee_id = 1, l_type_conge = js ''Annuel'', l_date_debut = midnight 200,
              l_date_fin = midnight 210, l_nb_jours = 10, l_motif_employe = None \<rparr>"

definition contract0 :: contract_creation where
  "contract0 = \<lparr> k_employee_id = 1, k_type_contrat = CDI, k_date_debut = midnight 100,
                 k_date_fin_prevue = None, k_position_id = 5, k_salaire_de_base = 1000,
                 k_is_avenant = False, k_parent_contract_id = None,
                 k_autres_valides = True \<rparr>"

text \<open>The store after that employee has been archived on day 120.\<close>

definition db_archived :: db where
  "db_archived = snd (archive_employee cfg0 (day 120) 1 db_hired)"

text \<open>The employee has a submitted leave from day 200 to day 210.\<close>

definition db_with_leave :: db where
  "db_with_leave = run cfg0 [Hire (day 100) hire0, Leave (day 150) leave0] db0"

definition leave_inside :: leave_submission where
  "leave_inside = leave0 \<lparr> l_date_debut := midnight 205, l_date_fin := midnight 206 \<rparr>"

definition leave_after :: leave_submission where
  "leave_after = leave0 \<lparr> l_date_debut := midnight 211, l_date_fin := midnight 215 \<rparr>"

text \<open>
  The employee has a submitted leave from day 200 to day 210 and is then put on the status
  \<open>Conge\<close> by an update.
\<close>

definition db_on_leave :: db where
  "db_on_leave =
     run cfg0 [Hire (day 100) hire0, Leave (day 150) leave0,
               Update (day 160) 1 (upd0 \<lparr> u_statut := Some Conge \<rparr>)] db0"

text \<open>The employee has an active main contract.\<close>

definition db_contract :: db where
  "db_contract = run cfg0 [Hire (day 100) hire0, Contract contract0] db0"

definition avenant0 :: contract_creation where
  "avenant0 = contract0 \<lparr> k_position_id := 6, k_is_avenant := True,
                           k_parent_contract_id := Some (Some 1) \<rparr>"

text \<open>The employee has an active main contract and is then suspended by an update.\<close>

definition db_suspended :: db where
  "db_suspended =
     run cfg0 [Hire (day 100) hire0, Contract contract0,
               Update (day 160) 1 (upd0 \<lparr> u_statut := Some Suspendu \<rparr>)] db0"

definition hire1 :: employee_creation where
  "hire1 = hire0 \<lparr> n_matricule := js ''M2'', n_nom := js ''Fall'', n_user_id := None \<rparr>"

definition upd_chef :: employee_update where
  "upd_chef = upd0 \<lparr> u_position := Some (js ''Chef''), motif_changement := Some (js ''Promotion'') \<rparr>"

definition upd_site :: employee_update where
  "upd_site = upd0 \<lparr> u_site_id := Some 2, motif_changement := Some (js ''Mutation'') \<rparr>"

text \<open>The position of the employee has been changed on day 110, with a comment.\<close>

definition db_changed :: db where
  "db_changed =
     run cfg0 [Hire (day 100) hire0,
               Update (day 110) 1
                 (upd_chef \<lparr> commentaire_changement := Some (Some (js ''Passage chef'')) \<rparr>)] db0"
section \<open>Properties of the hours calculation\<close>

lemma is_digit_value:
  "is_digit c \<Longrightarrow> \<exists>d. digit_of c = Some d \<and> 0 \<le> d \<and> d \<le> 9"
  by (auto simp: is_digit_def digit_of_def split: if_splits)

lemma is_digit_not_colon: "is_digit c \<Longrightarrow> c \<noteq> CHR '':''"
  by (auto simp: is_digit_def digit_of_def)

lemma char_in_is_digit:
  "char_in c ''01'' \<or> char_in c ''0123'' \<or> char_in c ''012345'' \<Longrightarrow> is_digit c"
  by (auto simp: char_in_def is_digit_def digit_of_def)

lemma c2_is_digit: "is_digit CHR ''2''"
  by (simp add: is_digit_def digit_of_def)

lemma split_js_two:
  "a \<noteq> CHR '':'' \<Longrightarrow> b \<noteq> CHR '':'' \<Longrightarrow> d \<noteq> CHR '':'' \<Longrightarrow> e \<noteq> CHR '':'' \<Longrightarrow>
   split_js CHR '':'' [a, b, CHR '':'', d, e] = [[a, b], [d, e]]"
  by simp

lemma split_js_one:
  "b \<noteq> CHR '':'' \<Longrightarrow> d \<noteq> CHR '':'' \<Longrightarrow> e \<noteq> CHR '':'' \<Longrightarrow>
   split_js CHR '':'' [b, CHR '':'', d, e] = [[b], [d, e]]"
  by simp

lemma Number_js_two:
  "is_digit a \<Longrightarrow> is_digit b \<Longrightarrow> \<exists>n. Number_js [a, b] = Some n"
  by (auto simp: Number_js_def dest!: is_digit_value)

lemma Number_js_one:
  "is_digit b \<Longrightarrow> \<exists>n. Number_js [b] = Some n"
  by (auto simp: Number_js_def dest!: is_digit_value)

lemma hhmm_timeToMinutes:
  assumes "hhmm t"
  shows "\<exists>m. timeToMinutes t = Some m"
  using assms
proof (cases t rule: hhmm.cases)
  case (1 a b c d e)
  with assms have dig: "is_digit a" "is_digit b" "is_digit d" "is_digit e" and c: "c = CHR '':''"
    using char_in_is_digit c2_is_digit by auto
  from dig obtain h m where "Number_js [a, b] = Some h" "Number_js [d, e] = Some m"
    using Number_js_two by blast
  then show ?thesis
    using dig 1 c by (simp add: timeToMinutes_def split_js_two is_digit_not_colon del: split_js.simps)
next
  case (2 b c d e)
  with assms have dig: "is_digit b" "is_digit d" "is_digit e" and c: "c = CHR '':''"
    using char_in_is_digit by auto
  from dig obtain h m where "Number_js [b] = Some h" "Number_js [d, e] = Some m"
    using Number_js_two Number_js_one by blast
  then show ?thesis
    using dig 2 c by (simp add: timeToMinutes_def split_js_one is_digit_not_colon del: split_js.simps)
qed (use assms in auto)


lemma toFixed2_quarter: "quarter x \<Longrightarrow> toFixed2 x = x"
proof -
  assume "quarter x"
  then obtain k :: int where x: "x = of_int k / 4" by (auto simp: quarter_def)
  have a: "x * 100 + 1 / 2 = of_int (25 * k) + 1 / 2" by (simp add: x)
  have b: "(- x) * 100 + 1 / 2 = of_int (- 25 * k) + 1 / 2" by (simp add: x)
  have fa: "\<lfloor>x * 100 + 1 / 2\<rfloor> = 25 * k" unfolding a by linarith
  have fb: "\<lfloor>(- x) * 100 + 1 / 2\<rfloor> = - 25 * k" unfolding b by linarith
  show ?thesis
    unfolding toFixed2_def fa fb by (simp add: x)
qed

lemma quarter_of_int [simp]: "quarter (of_int k / 4)"
  by (auto simp: quarter_def)

lemma quarter_numeral: "quarter 0" "quarter 2" "quarter 8" "quarter 60" "quarter 100"
  unfolding quarter_def
  by (rule exI [of _ 0], simp, rule exI [of _ 8], simp, rule exI [of _ 32], simp,
      rule exI [of _ 240], simp, rule exI [of _ 400], simp)

lemma quarter_min: "quarter x \<Longrightarrow> quarter y \<Longrightarrow> quarter (min x y)"
  by (simp add: min_def)

lemma quarter_max: "quarter x \<Longrightarrow> quarter y \<Longrightarrow> quarter (max x y)"
  by (simp add: max_def)

lemma quarter_diff: "quarter x \<Longrightarrow> quarter y \<Longrightarrow> quarter (x - y)"
  unfolding quarter_def
proof -
  assume "\<exists>k. x = of_int k / 4" "\<exists>k. y = of_int k / 4"
  then obtain k l :: int where "x = of_int k / 4" "y = of_int l / 4" by blast
  then have "x - y = of_int (k - l) / 4" by (simp add: diff_divide_distrib)
  then show "\<exists>k. x - y = of_int k / 4" by blast
qed

lemma quarter_add: "quarter x \<Longrightarrow> quarter y \<Longrightarrow> quarter (x + y)"
  unfolding quarter_def
proof -
  assume "\<exists>k. x = of_int k / 4" "\<exists>k. y = of_int k / 4"
  then obtain k l :: int where "x = of_int k / 4" "y = of_int l / 4" by blast
  then have "x + y = of_int (k + l) / 4" by (simp add: add_divide_distrib)
  then show "\<exists>k. x + y = of_int k / 4" by blast
qed


lemma toFixed2_cent: "toFixed2 (of_int n / 100) = of_int n / 100"
proof -
  have a: "(of_int n / 100 :: rat) * 100 + 1 / 2 = of_int n + 1 / 2" by simp
  have b: "(- (of_int n / 100 :: rat)) * 100 + 1 / 2 = of_int (- n) + 1 / 2" by simp
  have fa: "\<lfloor>(of_int n / 100 :: rat) * 100 + 1 / 2\<rfloor> = n" unfolding a by linarith
  have fb: "\<lfloor>(- (of_int n / 100 :: rat)) * 100 + 1 / 2\<rfloor> = - n" unfolding b by linarith
  show ?thesis
    unfolding toFixed2_def fa fb by simp
qed


lemma quarter_rounded_hours: "quarter (rounded_hours a b)"
  by (simp add: rounded_hours_def)

lemma calculateHours_ordinary:
  assumes "timeToMinutes heure_entree = Some entree" "timeToMinutes heure_sortie = Some sortie"
  shows "calculateHours heure_entree heure_sortie False False maj =
    Some \<lparr> totalHours = rounded_hours entree sortie,
           heures_normales = min (rounded_hours entree sortie) 8,
           heures_sup_15 = min (max 0 (rounded_hours entree sortie - 8)) 2,
           heures_sup_40 = max 0 (max 0 (rounded_hours entree sortie - 8) - 2),
           heures_supplementaires = min (max 0 (rounded_hours entree sortie - 8)) 2
              + max 0 (max 0 (rounded_hours entree sortie - 8) - 2),
           majoration_pourcentage = 0,
           panierRepas = (rounded_hours entree sortie \<ge> 10) \<rparr>"
proof -
  let ?T = "rounded_hours entree sortie"
  have q: "quarter ?T" by (rule quarter_rounded_hours)
  have ot: "quarter (max 0 (?T - 8))"
    by (intro quarter_max quarter_diff quarter_numeral q)
  have f1: "toFixed2 (min ?T 8) = min ?T 8"
    by (intro toFixed2_quarter quarter_min quarter_numeral q)
  have f2: "toFixed2 (min (max 0 (?T - 8)) 2) = min (max 0 (?T - 8)) 2"
    by (intro toFixed2_quarter quarter_min quarter_numeral ot)
  have f3: "toFixed2 (max 0 (max 0 (?T - 8) - 2)) = max 0 (max 0 (?T - 8) - 2)"
    by (intro toFixed2_quarter quarter_max quarter_diff quarter_numeral ot)
  have f4: "toFixed2 (min (max 0 (?T - 8)) 2 + max 0 (max 0 (?T - 8) - 2))
      = min (max 0 (?T - 8)) 2 + max 0 (max 0 (?T - 8) - 2)"
    by (intro toFixed2_quarter quarter_add quarter_min quarter_max quarter_diff quarter_numeral ot)
  show ?thesis
    unfolding calculateHours_def assms Let_def option.case
    unfolding rounded_hours_def [symmetric] f1 f2 f3 f4
    by simp
qed

lemma calculateHours_special:
  assumes "timeToMinutes heure_entree = Some entree" "timeToMinutes heure_sortie = Some sortie"
    and "isHoliday \<or> isSunday"
  shows "calculateHours heure_entree heure_sortie isHoliday isSunday maj =
    Some \<lparr> totalHours = rounded_hours entree sortie,
           heures_normales = 0,
           heures_sup_15 = 0,
           heures_sup_40 = 0,
           heures_supplementaires = rounded_hours entree sortie,
           majoration_pourcentage =
             (if isHoliday \<and> isSunday then 100 else if isHoliday then toFixed2 maj else 60),
           panierRepas = (rounded_hours entree sortie \<ge> 10) \<rparr>"
proof -
  let ?T = "rounded_hours entree sortie"
  have f1: "toFixed2 ?T = ?T"
    by (intro toFixed2_quarter quarter_rounded_hours)
  have f0: "toFixed2 0 = 0" "toFixed2 60 = 60" "toFixed2 100 = 100"
    by (intro toFixed2_quarter quarter_numeral)+
  show ?thesis
    unfolding calculateHours_def assms(1,2) Let_def option.case
    unfolding rounded_hours_def [symmetric] f1
    using assms(3) by (auto simp: f0)
qed




subsection \<open>The claims on the hours calculation\<close>

lemma timeToMinutes_examples:
  "timeToMinutes ''08:00'' = Some 480" "timeToMinutes ''17:00'' = Some 1020"
  "timeToMinutes ''20:15'' = Some 1215" "timeToMinutes ''18:40'' = Some 1120"
  "timeToMinutes ''09:00'' = Some 540" "timeToMinutes ''19:40'' = Some 1180"
  by (simp_all add: timeToMinutes_def Number_js_def digit_of_def)

lemma hhmm_examples:
  "hhmm ''08:00''" "hhmm ''17:00''" "hhmm ''20:15''" "hhmm ''18:40''" "hhmm ''09:00''" "hhmm ''19:40''"
  by (simp_all add: char_in_def is_digit_def digit_of_def)

lemma rounded_hours_examples:
  "rounded_hours 480 1020 = 9" "rounded_hours 480 1215 = 49 / 4" "rounded_hours 480 1120 = 43 / 4"
  "rounded_hours 540 1180 = 43 / 4" "rounded_hours 1020 480 = - 9"
proof -
  have "\<lceil>(of_int (1020 - 480) :: rat) / 60 * 4\<rceil> = 36" by (simp add: ceiling_unique)
  then show "rounded_hours 480 1020 = 9" by (simp add: rounded_hours_def)
  have "\<lceil>(of_int (1215 - 480) :: rat) / 60 * 4\<rceil> = 49" by (simp add: ceiling_unique)
  then show "rounded_hours 480 1215 = 49 / 4" by (simp add: rounded_hours_def)
  have "\<lceil>(of_int (1120 - 480) :: rat) / 60 * 4\<rceil> = 43" by (simp add: ceiling_unique)
  then show "rounded_hours 480 1120 = 43 / 4" by (simp add: rounded_hours_def)
  have "\<lceil>(of_int (1180 - 540) :: rat) / 60 * 4\<rceil> = 43" by (simp add: ceiling_unique)
  then show "rounded_hours 540 1180 = 43 / 4" by (simp add: rounded_hours_def)
  have "\<lceil>(of_int (480 - 1020) :: rat) / 60 * 4\<rceil> = - 36" by (simp add: ceiling_unique)
  then show "rounded_hours 1020 480 = - 9" by (simp add: rounded_hours_def)
qed

lemma calculateHours_ordinary_fields:
  assumes "timeToMinutes heure_entree = Some entree" "timeToMinutes heure_sortie = Some sortie"
  obtains r where
    "calculateHours heure_entree heure_sortie False False maj = Some r"
    "totalHours r = rounded_hours entree sortie"
    "heures_normales r = min (totalHours r) 8"
    "heures_sup_15 r = min (max 0 (totalHours r - 8)) 2"
    "heures_sup_40 r = max 0 (max 0 (totalHours r - 8) - 2)"
    "heures_supplementaires r = heures_sup_15 r + heures_sup_40 r"
    "majoration_pourcentage r = 0"
    "panierRepas r = (totalHours r \<ge> 10)"
  by (rule that, rule calculateHours_ordinary [OF assms]) simp_all

lemma calculateHours_special_fields:
  assumes "timeToMinutes heure_entree = Some entree" "timeToMinutes heure_sortie = Some sortie"
    and "isHoliday \<or> isSunday"
  obtains r where
    "calculateHours heure_entree heure_sortie isHoliday isSunday maj = Some r"
    "totalHours r = rounded_hours entree sortie"
    "heures_normales r = 0" "heures_sup_15 r = 0" "heures_sup_40 r = 0"
    "heures_supplementaires r = totalHours r"
    "majoration_pourcentage r =
       (if isHoliday \<and> isSunday then 100 else if isHoliday then toFixed2 maj else 60)"
    "panierRepas r = (totalHours r \<ge> 10)"
  by (rule that, rule calculateHours_special [OF assms]) simp_all


lemma toFixed2_two_decimals: "x * 100 \<in> \<int> \<Longrightarrow> toFixed2 x = x"
proof -
  assume "x * 100 \<in> \<int>"
  then obtain n :: int where "x * 100 = of_int n" by (auto elim: Ints_cases)
  then have "x = of_int n / 100" by simp
  then show ?thesis by (simp only: toFixed2_cent)
qed

text \<open>
  Claim C1. For all \<^verbatim>\<open>HH:MM\<close> times with the exit later than the entry, on an ordinary day
  (neither holiday nor Sunday) \<open>calculateHours\<close> returns \<open>heures_normales = min T 8\<close>,
  \<open>heures_sup_15 = min overtime 2\<close> and \<open>heures_sup_40 = max 0 (overtime - 2)\<close> with
  \<open>overtime = max 0 (T - 8)\<close> and \<open>T\<close> the rounded total, \<open>heures_supplementaires\<close> the sum
  of the two tiers and \<open>majoration_pourcentage = 0\<close>; from 08:00 to 17:00 the three hour
  fields are 8, 1 and 0.
\<close>
theorem C1_ordinary_day:
  assumes "hhmm heure_entree" and "hhmm heure_sortie"
  shows "(\<exists>entree sortie.
           timeToMinutes heure_entree = Some entree \<and> timeToMinutes heure_sortie = Some sortie \<and>
           (entree < sortie \<longrightarrow>
             (\<exists>r. calculateHours heure_entree heure_sortie False False majorationFeriee = Some r \<and>
                  totalHours r = of_int \<lceil>(of_int (sortie - entree) :: rat) / 60 * 4\<rceil> / 4 \<and>
                  heures_normales r = min (totalHours r) 8 \<and>
                  heures_sup_15 r = min (max 0 (totalHours r - 8)) 2 \<and>
                  heures_sup_40 r = max 0 (max 0 (totalHours r - 8) - 2) \<and>
                  heures_supplementaires r = heures_sup_15 r + heures_sup_40 r \<and>
                  majoration_pourcentage r = 0)))
         \<and> map_option (\<lambda>r. (heures_normales r, heures_sup_15 r, heures_sup_40 r))
              (calculateHours ''08:00'' ''17:00'' False False 60) = Some (8, 1, 0)"
proof -
  from assms obtain entree sortie where
    p: "timeToMinutes heure_entree = Some entree" "timeToMinutes heure_sortie = Some sortie"
    using hhmm_timeToMinutes by blast
  obtain r where r:
    "calculateHours heure_entree heure_sortie False False majorationFeriee = Some r"
    "totalHours r = rounded_hours entree sortie"
    "heures_normales r = min (totalHours r) 8"
    "heures_sup_15 r = min (max 0 (totalHours r - 8)) 2"
    "heures_sup_40 r = max 0 (max 0 (totalHours r - 8) - 2)"
    "heures_supplementaires r = heures_sup_15 r + heures_sup_40 r"
    "majoration_pourcentage r = 0"
    by (rule calculateHours_ordinary_fields [OF p])
  have t: "totalHours r = of_int \<lceil>(of_int (sortie - entree) :: rat) / 60 * 4\<rceil> / 4"
    using r(2) by (simp only: rounded_hours_def)
  have general: "\<exists>r. calculateHours heure_entree heure_sortie False False majorationFeriee = Some r \<and>
                  totalHours r = of_int \<lceil>(of_int (sortie - entree) :: rat) / 60 * 4\<rceil> / 4 \<and>
                  heures_normales r = min (totalHours r) 8 \<and>
                  heures_sup_15 r = min (max 0 (totalHours r - 8)) 2 \<and>
                  heures_sup_40 r = max 0 (max 0 (totalHours r - 8) - 2) \<and>
                  heures_supplementaires r = heures_sup_15 r + heures_sup_40 r \<and>
                  majoration_pourcentage r = 0"
    using r(1) t r(3-7) by (intro exI [of _ r] conjI)
  have example: "map_option (\<lambda>r. (heures_normales r, heures_sup_15 r, heures_sup_40 r))
              (calculateHours ''08:00'' ''17:00'' False False 60) = Some (8, 1, 0)"
    unfolding calculateHours_ordinary [OF timeToMinutes_examples(1,2)]
    by (simp add: rounded_hours_examples)
  from p general example show ?thesis by blast
qed

text \<open>The statement of C1 at 08:00 to 18:40, where both overtime tiers are used.\<close>
theorem C1_ordinary_day_witness:
  "hhmm ''08:00'' \<and> hhmm ''18:40'' \<and>
   timeToMinutes ''08:00'' = Some 480 \<and> timeToMinutes ''18:40'' = Some 1120 \<and> (480 :: int) < 1120 \<and>
   (\<exists>r. calculateHours ''08:00'' ''18:40'' False False 60 = Some r \<and>
        totalHours r = 43 / 4 \<and> heures_normales r = 8 \<and> heures_sup_15 r = 2 \<and>
        heures_sup_40 r = 3 / 4 \<and> heures_supplementaires r = 11 / 4 \<and>
        majoration_pourcentage r = 0)"
proof -
  have c: "(of_int \<lceil>(of_int (1120 - 480) :: rat) / 60 * 4\<rceil> :: rat) / 4 = 43 / 4"
    using rounded_hours_examples(3) by (simp only: rounded_hours_def)
  from C1_ordinary_day [OF hhmm_examples(1,4), of 60]
       timeToMinutes_examples(1,4) c hhmm_examples(1,4)
  show ?thesis by auto
qed

text \<open>
  Claim C2 says that on a holiday that is not a Sunday \<open>majoration_pourcentage\<close> is the passed
  \<open>majorationFeriee\<close>. The function returns \<^verbatim>\<open>parseFloat(majoration.toFixed(2))\<close>: with the
  rate 12.125 (a double) the result is 12.13.
\<close>
theorem C2_holiday_rate_counterexample:
  "map_option majoration_pourcentage (calculateHours ''08:00'' ''17:00'' True False (97 / 8))
     = Some (1213 / 100) \<and> (1213 / 100 :: rat) \<noteq> 97 / 8"
proof -
  have "\<lfloor>(97 / 8 :: rat) * 100 + 1 / 2\<rfloor> = 1213" by (simp add: floor_unique)
  then have "toFixed2 (97 / 8) = 1213 / 100" by (simp add: toFixed2_def)
  then show ?thesis
    by (simp add: calculateHours_special [OF timeToMinutes_examples(1,2)])
qed

text \<open>
  Claim C2, amended. For all \<^verbatim>\<open>HH:MM\<close> times with the exit later than the entry, the day is
  classified in the order Sunday and holiday (rate 100, whatever \<open>majorationFeriee\<close>), holiday
  only (rate: \<open>majorationFeriee\<close> rounded to two fractional digits, hence the passed value
  itself when it has at most two), Sunday only (rate 60); in the three cases
  \<open>heures_normales\<close>, \<open>heures_sup_15\<close> and \<open>heures_sup_40\<close> are 0 and all rounded hours are
  in \<open>heures_supplementaires\<close>. From 08:00 to 20:15 on a holiday at rate 60 the result is
  0, 0, 0, 12.25 and 60.
\<close>
theorem C2_special_days:
  assumes "hhmm heure_entree" and "hhmm heure_sortie"
  shows "(\<exists>entree sortie.
           timeToMinutes heure_entree = Some entree \<and> timeToMinutes heure_sortie = Some sortie \<and>
           (entree < sortie \<and> (isHoliday \<or> isSunday) \<longrightarrow>
             (\<exists>r. calculateHours heure_entree heure_sortie isHoliday isSunday majorationFeriee = Some r \<and>
                  totalHours r = of_int \<lceil>(of_int (sortie - entree) :: rat) / 60 * 4\<rceil> / 4 \<and>
                  heures_normales r = 0 \<and> heures_sup_15 r = 0 \<and> heures_sup_40 r = 0 \<and>
                  heures_supplementaires r = totalHours r \<and>
                  majoration_pourcentage r =
                    (if isHoliday \<and> isSunday then 100
                     else if isHoliday then toFixed2 majorationFeriee
                     else 60) \<and>
                  (isHoliday \<and> \<not> isSunday \<and> majorationFeriee * 100 \<in> \<int>
                      \<longrightarrow> majoration_pourcentage r = majorationFeriee))))
         \<and> calculateHours ''08:00'' ''20:15'' True False 60 =
             Some \<lparr> totalHours = 49 / 4, heures_normales = 0, heures_sup_15 = 0, heures_sup_40 = 0,
                    heures_supplementaires = 49 / 4, majoration_pourcentage = 60,
                    panierRepas = True \<rparr>"
proof -
  from assms obtain entree sortie where
    p: "timeToMinutes heure_entree = Some entree" "timeToMinutes heure_sortie = Some sortie"
    using hhmm_timeToMinutes by blast
  have general: "\<exists>r. calculateHours heure_entree heure_sortie isHoliday isSunday majorationFeriee = Some r \<and>
                  totalHours r = of_int \<lceil>(of_int (sortie - entree) :: rat) / 60 * 4\<rceil> / 4 \<and>
                  heures_normales r = 0 \<and> heures_sup_15 r = 0 \<and> heures_sup_40 r = 0 \<and>
                  heures_supplementaires r = totalHours r \<and>
                  majoration_pourcentage r =
                    (if isHoliday \<and> isSunday then 100
                     else if isHoliday then toFixed2 majorationFeriee
                     else 60) \<and>
                  (isHoliday \<and> \<not> isSunday \<and> majorationFeriee * 100 \<in> \<int>
                      \<longrightarrow> majoration_pourcentage r = majorationFeriee)"
    if special: "entree < sortie \<and> (isHoliday \<or> isSunday)"
  proof -
    from special have day: "isHoliday \<or> isSunday" by simp
    obtain r where r:
      "calculateHours heure_entree heure_sortie isHoliday isSunday majorationFeriee = Some r"
      "totalHours r = rounded_hours entree sortie"
      "heures_normales r = 0" "heures_sup_15 r = 0" "heures_sup_40 r = 0"
      "heures_supplementaires r = totalHours r"
      "majoration_pourcentage r =
         (if isHoliday \<and> isSunday then 100 else if isHoliday then toFixed2 majorationFeriee else 60)"
      by (rule calculateHours_special_fields [OF p day])
    have t: "totalHours r = of_int \<lceil>(of_int (sortie - entree) :: rat) / 60 * 4\<rceil> / 4"
      using r(2) by (simp only: rounded_hours_def)
    have d: "isHoliday \<and> \<not> isSunday \<and> majorationFeriee * 100 \<in> \<int>
               \<longrightarrow> majoration_pourcentage r = majorationFeriee"
      using r(7) toFixed2_two_decimals [of majorationFeriee] by simp
    show ?thesis
      using r(1) t r(3-7) d by (intro exI [of _ r] conjI)
  qed
  have example: "calculateHours ''08:00'' ''20:15'' True False 60 =
             Some \<lparr> totalHours = 49 / 4, heures_normales = 0, heures_sup_15 = 0, heures_sup_40 = 0,
                    heures_supplementaires = 49 / 4, majoration_pourcentage = 60,
                    panierRepas = True \<rparr>"
    unfolding calculateHours_special [OF timeToMinutes_examples(1,3) disjI1 [OF TrueI]]
    by (simp add: rounded_hours_examples toFixed2_quarter quarter_numeral)
  from p general example show ?thesis by blast
qed

text \<open>The amended C2 on a holiday at the rate 12.5, from 09:00 to 19:40.\<close>
theorem C2_special_days_witness:
  "hhmm ''09:00'' \<and> hhmm ''19:40'' \<and>
   timeToMinutes ''09:00'' = Some 540 \<and> timeToMinutes ''19:40'' = Some 1180 \<and> (540 :: int) < 1180 \<and>
   (25 / 2 :: rat) * 100 \<in> \<int> \<and>
   (\<exists>r. calculateHours ''09:00'' ''19:40'' True False (25 / 2) = Some r \<and>
        totalHours r = 43 / 4 \<and> heures_normales r = 0 \<and> heures_sup_15 r = 0 \<and>
        heures_sup_40 r = 0 \<and> heures_supplementaires r = 43 / 4 \<and>
        majoration_pourcentage r = 25 / 2)"
proof -
  have c: "(of_int \<lceil>(of_int (1180 - 540) :: rat) / 60 * 4\<rceil> :: rat) / 4 = 43 / 4"
    using rounded_hours_examples(4) by (simp only: rounded_hours_def)
  have m: "(25 / 2 :: rat) * 100 \<in> \<int>" by simp
  from C2_special_days [OF hhmm_examples(5,6), of True False "25 / 2"]
       timeToMinutes_examples(5,6) c m hhmm_examples(5,6)
  show ?thesis by auto
qed







section \<open>Properties of the employee routes\<close>

subsection \<open>The validator on sample bodies\<close>

text \<open>
  An accented letter is one code unit: a \<^verbatim>\<open>matricule\<close> of thirty letters \<^verbatim>\<open>e\<close> with acute
  accent passes \<^verbatim>\<open>max(50)\<close> and the hiring is served, one of fifty-one is refused.
\<close>

lemma accented_matricule:
  "fst (create_employee cfg0 (day 105) (hire1 \<lparr> n_matricule := replicate 30 0xE9 \<rparr>) db_hired)
     = Reply 201 (EmployeeId 2) \<and>
   create_employee cfg0 (day 105) (hire1 \<lparr> n_matricule := replicate 51 0xE9 \<rparr>) db_hired
     = (Reply 400 Message, db_hired)"
  by code_simp

text \<open>A number beyond the safe integers is refused by each of the schemas.\<close>

lemma unsafe_number:
  "create_employee cfg0 (day 105) (hire1 \<lparr> n_user_id := Some (10 ^ 17) \<rparr>) db_hired
     = (Reply 400 Message, db_hired) \<and>
   update_employee (day 110) 1 (upd_site \<lparr> u_site_id := Some (10 ^ 17) \<rparr>) db_hired
     = (Reply 400 Message, db_hired) \<and>
   create_leave (day 170) (leave_after \<lparr> l_nb_jours := 10 ^ 17 \<rparr>) db_hired
     = (Reply 400 Message, db_hired) \<and>
   create_contract cfg0 (contract0 \<lparr> k_position_id := 10 ^ 17 \<rparr>) db_hired
     = (Reply 400 Message, db_hired)"
  by code_simp

text \<open>So is a date beyond the range of \<^verbatim>\<open>Date\<close>.\<close>

lemma date_out_of_range:
  "create_leave (day 170) (leave_after \<lparr> l_date_fin := 10 ^ 16 \<rparr>) db_hired
     = (Reply 400 Message, db_hired) \<and>
   create_contract cfg0 (contract0 \<lparr> k_date_debut := 10 ^ 16 \<rparr>) db_hired
     = (Reply 400 Message, db_hired)"
  by code_simp

subsection \<open>A validated update body\<close>

lemma schema_fields:
  assumes "employeeUpdateSchema u"
  shows "opt_ok (number_integer_min 1) (u_site_id u)" "opt_ok (number_integer_min 1) (u_department_id u)"
    "opt_ok (number_integer_min 1) (u_service_id u)" "opt_ok (number_integer_min 1) (u_team_id u)"
    "opt_ok (string_max 255) (u_position u)"
    "opt_ok (string_max 255) (u_fonction u)"
    "opt_ok (string_max 255) (motif_changement u)"
  using assms unfolding employeeUpdateSchema_def by blast+

lemma truthy_num_ok: "opt_ok (number_integer_min 1) v \<Longrightarrow> truthy_num v = (v \<noteq> None)"
  by (cases v) (auto simp: opt_ok_def truthy_num_def number_integer_min_def)

lemma truthy_str_ok: "opt_ok (string_max 255) v \<Longrightarrow> truthy_str v = (v \<noteq> None)"
  by (cases v) (auto simp: opt_ok_def truthy_str_def string_max_def)

lemma or_num_ok: "opt_ok (number_integer_min 1) v \<Longrightarrow> or_num v d = set_field v d"
  by (cases v) (auto simp: opt_ok_def or_num_def set_field_def number_integer_min_def)

lemma or_str_ok: "opt_ok (string_max 255) v \<Longrightarrow> or_str v d = set_field v d"
  by (cases v) (auto simp: opt_ok_def or_str_def set_field_def string_max_def)

lemma differs_iff: "differs v c = (v \<noteq> None \<and> v \<noteq> Some c)"
  by (cases v) (auto simp: differs_def)

lemma isAffectationChange_iff:
  assumes "employeeUpdateSchema u"
  shows "isAffectationChange u e = placement_differs u e"
  unfolding isAffectationChange_def placement_differs_def differs_iff
    truthy_num_ok [OF schema_fields(1) [OF assms]] truthy_num_ok [OF schema_fields(2) [OF assms]]
    truthy_num_ok [OF schema_fields(3) [OF assms]] truthy_num_ok [OF schema_fields(4) [OF assms]]
    truthy_str_ok [OF schema_fields(5) [OF assms]] truthy_str_ok [OF schema_fields(6) [OF assms]]
  by (rule refl)

lemma new_placement_merged:
  assumes "employeeUpdateSchema u"
  shows "new_placement u e = merged_placement u e"
  unfolding new_placement_def merged_placement_def
    or_num_ok [OF schema_fields(1) [OF assms]] or_num_ok [OF schema_fields(2) [OF assms]]
    or_num_ok [OF schema_fields(3) [OF assms]] or_num_ok [OF schema_fields(4) [OF assms]]
    or_str_ok [OF schema_fields(5) [OF assms]] or_str_ok [OF schema_fields(6) [OF assms]]
  by (rule refl)

lemma motif_truthy:
  assumes "employeeUpdateSchema u"
  shows "truthy_str (motif_changement u) = (motif_changement u \<noteq> None)"
  by (rule truthy_str_ok [OF schema_fields(7) [OF assms]])


text \<open>
  Claim C5. An update of an existing employee in which some placement field (site,
  department, service, team, position, fonction) is supplied with a value other than the
  current one, and which supplies no \<^verbatim>\<open>motif_changement\<close>, is answered with 400 and leaves
  the store as it was: no history record is written and the live row is not changed.
\<close>
theorem C5_change_without_reason_rejected:
  assumes "filter (\<lambda>e. e_id e = employeeId) (employees db) = currentEmployee # others"
    and "placement_differs fieldsToUpdate currentEmployee"
    and "motif_changement fieldsToUpdate = None"
  shows "update_employee cx employeeId fieldsToUpdate db = (Reply 400 Message, db)"
proof (cases "employeeUpdateSchema fieldsToUpdate")
  case False
  then show ?thesis by (simp add: update_employee_def)
next
  case True
  have "isAffectationChange fieldsToUpdate currentEmployee"
    using assms(2) by (simp only: isAffectationChange_iff [OF True])
  moreover have "\<not> truthy_str (motif_changement fieldsToUpdate)"
    using assms(3) by (simp add: truthy_str_def)
  ultimately show ?thesis
    using True assms(1) by (simp add: update_employee_def)
qed

text \<open>C5 on the employee hired in the sample store, with a new position and no reason.\<close>
theorem C5_change_without_reason_rejected_witness:
  "filter (\<lambda>e. e_id e = 1) (employees db_hired) = [hd (employees db_hired)] \<and>
   placement_differs (upd0 \<lparr> u_position := Some (js ''Chef'') \<rparr>) (hd (employees db_hired)) \<and>
   motif_changement (upd0 \<lparr> u_position := Some (js ''Chef'') \<rparr>) = None \<and>
   update_employee (day 110) 1 (upd0 \<lparr> u_position := Some (js ''Chef'') \<rparr>) db_hired
     = (Reply 400 Message, db_hired)"
proof -
  have a: "filter (\<lambda>e. e_id e = 1) (employees db_hired) = [hd (employees db_hired)]"
    by code_simp
  have b: "placement_differs (upd0 \<lparr> u_position := Some (js ''Chef'') \<rparr>) (hd (employees db_hired))"
    by code_simp
  have c: "motif_changement (upd0 \<lparr> u_position := Some (js ''Chef'') \<rparr>) = None"
    by code_simp
  show ?thesis
    using C5_change_without_reason_rejected [OF a b c, of "day 110"] a b c
    by (intro conjI)
qed

subsection \<open>Archiving\<close>

lemma update_where_id_filter:
  "filter P (update_where P f rows) = map f (filter P rows)" if "\<And>r. P r \<Longrightarrow> P (f r)"
  using that by (induction rows) (auto simp: update_where_def)

lemma open_after_archive:
  "filter (is_open_of i) (update_where (is_open_of i) (closed_by_archive cx) rows) = []"
  by (induction rows) (auto simp: update_where_def is_open_of_def closed_by_archive_def)

lemma closed_by_archive_simps [simp]:
  "a_employee_id (closed_by_archive cx r) = a_employee_id r"
  "date_fin (closed_by_archive cx r) = Some (today cx)"
  "ancien (closed_by_archive cx r) = ancien r"
  "nouveau (closed_by_archive cx r) = nouveau r"
  by (simp_all add: closed_by_archive_def)

lemma closed_by_change_simps [simp]:
  "a_employee_id (closed_by_change cx m r) = a_employee_id r"
  "date_fin (closed_by_change cx m r) = Some (today cx - 1)"
  "commentaire (closed_by_change cx m r) = Some (closing_comment m)"
  "ancien (closed_by_change cx m r) = ancien r"
  "nouveau (closed_by_change cx m r) = nouveau r"
  "date_debut (closed_by_change cx m r) = date_debut r"
  by (simp_all add: closed_by_change_def)

lemma update_where_twice:
  "update_where P g (update_where P f rows) = update_where P (g \<circ> f) rows"
  if "\<And>r. P r \<Longrightarrow> P (f r)"
  using that by (induction rows) (auto simp: update_where_def)

lemma archive_employee_found:
  assumes "filter (\<lambda>e. e_id e = employeeId) (employees db) \<noteq> []"
    and "found_rows cfg \<or> filter (\<lambda>e. statut e \<noteq> Licencie) (filter (\<lambda>e. e_id e = employeeId) (employees db)) \<noteq> []"
  shows "archive_employee cfg cx employeeId db =
    (Reply 200 (EmployeeId employeeId),
     db \<lparr> employees :=
            update_where (\<lambda>e. e_id e = employeeId) (\<lambda>e. e \<lparr> statut := Licencie, user_id := None \<rparr>)
              (employees db),
          employee_affectations :=
            update_where (is_open_of employeeId) (closed_by_archive cx) (employee_affectations db) \<rparr>)"
proof -
  have tw: "update_where (\<lambda>e. e_id e = employeeId) (\<lambda>e. e \<lparr> user_id := None \<rparr>)
          (update_where (\<lambda>e. e_id e = employeeId) (\<lambda>e. e \<lparr> statut := Licencie \<rparr>) (employees db))
        = update_where (\<lambda>e. e_id e = employeeId) (\<lambda>e. e \<lparr> statut := Licencie, user_id := None \<rparr>)
              (employees db)"
    by (subst update_where_twice) (simp_all add: comp_def)
  show ?thesis
    using assms by (auto simp: archive_employee_def Let_def tw)
qed

lemma archive_employee_none:
  assumes "if found_rows cfg then filter (\<lambda>e. e_id e = employeeId) (employees db) = []
     else filter (\<lambda>e. statut e \<noteq> Licencie) (filter (\<lambda>e. e_id e = employeeId) (employees db)) = []"
  shows "archive_employee cfg cx employeeId db = (Reply 404 Message, db)"
  using assms by (auto simp: archive_employee_def Let_def split: if_splits)


lemma update_where_mem:
  "r \<in> set rows \<Longrightarrow> P r \<Longrightarrow> f r \<in> set (update_where P f rows)"
  by (induction rows) (auto simp: update_where_def)

lemma archived_rows:
  "e \<in> set (update_where (\<lambda>e. e_id e = i) (\<lambda>e. e \<lparr> statut := Licencie, user_id := None \<rparr>) rows)
   \<Longrightarrow> e_id e = i \<Longrightarrow> statut e = Licencie \<and> user_id e = None"
proof -
  assume mem: "e \<in> set (update_where (\<lambda>e. e_id e = i) (\<lambda>e. e \<lparr> statut := Licencie, user_id := None \<rparr>) rows)"
    and i: "e_id e = i"
  from mem obtain r where r: "r \<in> set rows"
    "e = (if e_id r = i then r \<lparr> statut := Licencie, user_id := None \<rparr> else r)"
    unfolding update_where_def by auto
  show ?thesis
  proof (cases "e_id r = i")
    case True
    with r(2) show ?thesis by simp
  next
    case False
    with r(2) i show ?thesis by simp
  qed
qed
text \<open>
  Claim C8 says that a repeated archive is answered with 404 and changes nothing. The first
  statement of the handler selects the row by its id alone, so with the client reporting
  matched rows the second archive of the sample employee is answered with 200.
\<close>
theorem C8_repeated_archive_counterexample:
  "map statut (employees db_archived) = [Licencie] \<and>
   fst (archive_employee cfg0 (day 130) 1 db_archived)
     = Reply 200 (EmployeeId 1)"
proof
  show "map statut (employees db_archived) = [Licencie]"
    by code_simp
  show "fst (archive_employee cfg0 (day 130) 1 db_archived)
     = Reply 200 (EmployeeId 1)"
    by code_simp
qed
text \<open>
  Claim C8, amended. An archive request on an existing employee that is not yet archived
  closes every open history record of the employee with \<^verbatim>\<open>date_fin\<close> today and sets the
  status to archived and \<^verbatim>\<open>user_id\<close> to \<^verbatim>\<open>NULL\<close>, in one step, with the answer 200. A request
  on an id that no employee has is answered with 404 and changes nothing. A repeated archive
  is answered with 404 and changes nothing when the client reports changed rows in
  \<^verbatim>\<open>affectedRows\<close>; when it reports matched rows the answer is 200.
\<close>
theorem C8_archive:
  "((\<exists>e \<in> set (employees db). e_id e = employeeId \<and> statut e \<noteq> Licencie) \<longrightarrow>
      archive_employee cfg cx employeeId db =
        (Reply 200 (EmployeeId employeeId),
         db \<lparr> employees :=
                update_where (\<lambda>e. e_id e = employeeId)
                  (\<lambda>e. e \<lparr> statut := Licencie, user_id := None \<rparr>) (employees db),
              employee_affectations :=
                update_where (is_open_of employeeId) (closed_by_archive cx)
                  (employee_affectations db) \<rparr>) \<and>
      open_records employeeId (snd (archive_employee cfg cx employeeId db)) = [] \<and>
      (\<forall>r \<in> set (open_records employeeId db).
          closed_by_archive cx r
            \<in> set (employee_affectations (snd (archive_employee cfg cx employeeId db)))
          \<and> date_fin (closed_by_archive cx r) = Some (today cx)) \<and>
      (\<forall>e \<in> set (employees (snd (archive_employee cfg cx employeeId db))).
          e_id e = employeeId \<longrightarrow> statut e = Licencie \<and> user_id e = None))
   \<and> ((\<forall>e \<in> set (employees db). e_id e \<noteq> employeeId) \<longrightarrow>
      archive_employee cfg cx employeeId db = (Reply 404 Message, db))
   \<and> (\<not> found_rows cfg \<and> (\<forall>e \<in> set (employees db). e_id e = employeeId \<longrightarrow> statut e = Licencie) \<longrightarrow>
      archive_employee cfg cx employeeId db = (Reply 404 Message, db))
   \<and> (found_rows cfg \<and> (\<exists>e \<in> set (employees db). e_id e = employeeId) \<longrightarrow>
      fst (archive_employee cfg cx employeeId db) = Reply 200 (EmployeeId employeeId))"
proof (intro conjI impI)
  assume live: "\<exists>e \<in> set (employees db). e_id e = employeeId \<and> statut e \<noteq> Licencie"
  then have m: "filter (\<lambda>e. e_id e = employeeId) (employees db) \<noteq> []"
    by (auto simp: filter_empty_conv)
  from live have c: "filter (\<lambda>e. statut e \<noteq> Licencie)
      (filter (\<lambda>e. e_id e = employeeId) (employees db)) \<noteq> []"
    by (auto simp: filter_empty_conv)
  show eq: "archive_employee cfg cx employeeId db =
        (Reply 200 (EmployeeId employeeId),
         db \<lparr> employees :=
                update_where (\<lambda>e. e_id e = employeeId)
                  (\<lambda>e. e \<lparr> statut := Licencie, user_id := None \<rparr>) (employees db),
              employee_affectations :=
                update_where (is_open_of employeeId) (closed_by_archive cx)
                  (employee_affectations db) \<rparr>)"
    using m c by (intro archive_employee_found) simp_all
  show "open_records employeeId (snd (archive_employee cfg cx employeeId db)) = []"
    unfolding eq by (simp add: open_records_def open_after_archive)
  show "\<forall>r \<in> set (open_records employeeId db).
          closed_by_archive cx r
            \<in> set (employee_affectations (snd (archive_employee cfg cx employeeId db)))
          \<and> date_fin (closed_by_archive cx r) = Some (today cx)"
    unfolding eq
    by (simp add: open_records_def update_where_mem)
  show "\<forall>e \<in> set (employees (snd (archive_employee cfg cx employeeId db))).
          e_id e = employeeId \<longrightarrow> statut e = Licencie \<and> user_id e = None"
    unfolding eq snd_conv by (auto dest!: archived_rows)
next
  assume "\<forall>e \<in> set (employees db). e_id e \<noteq> employeeId"
  then have "filter (\<lambda>e. e_id e = employeeId) (employees db) = []"
    by (simp add: filter_empty_conv)
  then show "archive_employee cfg cx employeeId db = (Reply 404 Message, db)"
    by (simp add: archive_employee_def)
next
  assume "\<not> found_rows cfg \<and>
    (\<forall>e \<in> set (employees db). e_id e = employeeId \<longrightarrow> statut e = Licencie)"
  then have "\<not> found_rows cfg"
    "filter (\<lambda>e. statut e \<noteq> Licencie) (filter (\<lambda>e. e_id e = employeeId) (employees db)) = []"
    by (auto simp: filter_empty_conv)
  then show "archive_employee cfg cx employeeId db = (Reply 404 Message, db)"
    by (simp add: archive_employee_def)
next
  assume "found_rows cfg \<and> (\<exists>e \<in> set (employees db). e_id e = employeeId)"
  then have "found_rows cfg" "filter (\<lambda>e. e_id e = employeeId) (employees db) \<noteq> []"
    by (auto simp: filter_empty_conv)
  then show "fst (archive_employee cfg cx employeeId db) = Reply 200 (EmployeeId employeeId)"
    by (simp add: archive_employee_found)
qed

text \<open>The four cases of the amended C8 on the sample store, before and after the archive.\<close>
theorem C8_archive_witness:
  "(\<exists>e \<in> set (employees db_hired). e_id e = 1 \<and> statut e \<noteq> Licencie) \<and>
   open_records 1 (snd (archive_employee cfg0 (day 120) 1 db_hired)) = [] \<and>
   list_all (\<lambda>e. e_id e \<noteq> 9) (employees db_hired) \<and>
   archive_employee cfg0 (day 120) 9 db_hired = (Reply 404 Message, db_hired) \<and>
   (\<not> found_rows cfg_changed_rows \<and>
    list_all (\<lambda>e. e_id e = 1 \<longrightarrow> statut e = Licencie) (employees db_archived)) \<and>
   archive_employee cfg_changed_rows (day 130) 1 db_archived = (Reply 404 Message, db_archived) \<and>
   (found_rows cfg0 \<and> (\<exists>e \<in> set (employees db_archived). e_id e = 1)) \<and>
   fst (archive_employee cfg0 (day 130) 1 db_archived) = Reply 200 (EmployeeId 1)"
proof -
  have h1: "\<exists>e \<in> set (employees db_hired). e_id e = 1 \<and> statut e \<noteq> Licencie"
    by code_simp
  have h2: "list_all (\<lambda>e. e_id e \<noteq> 9) (employees db_hired)"
    by code_simp
  have h3: "\<not> found_rows cfg_changed_rows \<and>
    list_all (\<lambda>e. e_id e = 1 \<longrightarrow> statut e = Licencie) (employees db_archived)"
    by code_simp
  have h4: "found_rows cfg0 \<and> (\<exists>e \<in> set (employees db_archived). e_id e = 1)"
    by code_simp
  have r1: "open_records 1 (snd (archive_employee cfg0 (day 120) 1 db_hired)) = []"
    using C8_archive [of db_hired 1 cfg0 "day 120"] h1 by blast
  have r2: "archive_employee cfg0 (day 120) 9 db_hired = (Reply 404 Message, db_hired)"
    using C8_archive [of db_hired 9 cfg0 "day 120"] h2 unfolding list_all_iff by blast
  have r3: "archive_employee cfg_changed_rows (day 130) 1 db_archived
      = (Reply 404 Message, db_archived)"
    using C8_archive [of db_archived 1 cfg_changed_rows "day 130"] h3
    unfolding list_all_iff by blast
  have r4: "fst (archive_employee cfg0 (day 130) 1 db_archived) = Reply 200 (EmployeeId 1)"
    using C8_archive [of db_archived 1 cfg0 "day 130"] h4 by blast
  from h1 r1 h2 r2 h3 r3 h4 r4 show ?thesis by blast
qed

subsection \<open>The history of placements\<close>

lemma fold_max_ge: "a \<le> fold max xs (a :: int)"
  by (induction xs arbitrary: a) (auto intro: order_trans [OF max.cobounded2])

lemma fold_max_mem: "x \<in> set xs \<Longrightarrow> x \<le> fold max xs (a :: int)"
proof (induction xs arbitrary: a)
  case Nil
  then show ?case by simp
next
  case (Cons y ys)
  show ?case
  proof (cases "x = y")
    case True
    have "x \<le> max x a" by simp
    also have "\<dots> \<le> fold max ys (max x a)" by (rule fold_max_ge)
    finally show ?thesis using True by simp
  next
    case False
    with Cons.prems have "x \<in> set ys" by simp
    then show ?thesis using Cons.IH by simp
  qed
qed

lemma insertId_fresh: "insertId ids \<notin> set ids"
proof
  assume "insertId ids \<in> set ids"
  then have "insertId ids \<le> fold max ids 0" by (rule fold_max_mem)
  then show False by (simp add: insertId_def)
qed

lemma update_where_ids:
  assumes "\<And>e. e_id (f e) = e_id e"
  shows "map e_id (update_where P f rows) = map e_id rows"
  by (induction rows) (simp_all add: update_where_def assms)

lemma buildUpdateQuery_id:
  "buildUpdateQuery u = Some f \<Longrightarrow> e_id (f e) = e_id e"
  by (auto simp: buildUpdateQuery_def split: if_splits)

lemma open_other_after_archive:
  "j \<noteq> i \<Longrightarrow>
   filter (is_open_of j) (update_where (is_open_of i) (closed_by_archive cx) rows)
     = filter (is_open_of j) rows"
  by (induction rows) (auto simp: update_where_def is_open_of_def)

lemma update_first_split:
  "\<forall>x \<in> set pre. \<not> P x \<Longrightarrow> P r \<Longrightarrow> update_first P f (pre @ r # post) = pre @ f r # post"
  by (induction pre) auto

lemma update_first_other:
  assumes "\<And>x. P x \<Longrightarrow> \<not> Q x" and "\<And>x. P x \<Longrightarrow> \<not> Q (f x)"
  shows "filter Q (update_first P f xs) = filter Q xs"
  using assms by (induction xs) auto

lemma update_first_length [simp]: "length (update_first P f xs) = length xs"
  by (induction xs) auto

lemma update_first_map:
  assumes "\<And>x. g (f x) = g x"
  shows "map g (update_first P f xs) = map g xs"
  using assms by (induction xs) auto


lemma update_first_filter_map:
  assumes "\<And>x. g (f x) = g x" and "\<And>x. Q (f x) = Q x"
  shows "map g (filter Q (update_first P f xs)) = map g (filter Q xs)"
  using assms by (induction xs) auto

lemma close_previous_none:
  "filter (is_open_of i) rows = [] \<Longrightarrow> close_previous cx i m rows = rows"
  by (simp add: close_previous_def latest_open_debut_def)

lemma close_previous_single:
  assumes "filter (is_open_of i) rows = [r]"
  obtains pre post where "rows = pre @ r # post"
    "close_previous cx i m rows = pre @ closed_by_change cx m r # post"
    "filter (is_open_of i) pre = []" "filter (is_open_of i) post = []"
proof -
  from assms obtain pre post where
    s: "rows = pre @ r # post" "\<forall>u \<in> set pre. \<not> is_open_of i u" "is_open_of i r"
      "filter (is_open_of i) post = []"
    unfolding filter_eq_Cons_iff by auto
  have l: "latest_open_debut i rows = Some (date_debut r)"
    by (simp add: latest_open_debut_def assms)
  have "close_previous cx i m rows =
      update_first (\<lambda>x. is_open_of i x \<and> date_debut x = date_debut r)
        (closed_by_change cx m) rows"
    by (simp add: close_previous_def l)
  also have "\<dots> = pre @ closed_by_change cx m r # post"
    unfolding s(1) using s(2,3) by (intro update_first_split) simp_all
  finally have "close_previous cx i m rows = pre @ closed_by_change cx m r # post" .
  moreover have "filter (is_open_of i) pre = []"
    using s(2) by (simp add: filter_empty_conv)
  ultimately show thesis using s(1,4) by (intro that [of pre post])
qed

lemma not_open_closed_by_change [simp]: "\<not> is_open_of j (closed_by_change cx m r)"
  by (simp add: is_open_of_def)

lemma close_previous_no_open:
  assumes "length (filter (is_open_of i) rows) \<le> 1"
  shows "filter (is_open_of i) (close_previous cx i m rows) = []"
proof (cases "filter (is_open_of i) rows")
  case Nil
  then show ?thesis by (simp add: close_previous_none)
next
  case (Cons r rs)
  with assms have one: "filter (is_open_of i) rows = [r]" by simp
  then obtain pre post where "close_previous cx i m rows = pre @ closed_by_change cx m r # post"
    "filter (is_open_of i) pre = []" "filter (is_open_of i) post = []"
    by (rule close_previous_single)
  then show ?thesis by simp
qed

lemma close_previous_other:
  assumes "j \<noteq> i"
  shows "filter (is_open_of j) (close_previous cx i m rows) = filter (is_open_of j) rows"
proof (cases "latest_open_debut i rows")
  case None
  then show ?thesis by (simp add: close_previous_def)
next
  case (Some d)
  show ?thesis
    unfolding close_previous_def Some option.case
    using assms by (intro update_first_other) (simp_all add: is_open_of_def)
qed

lemma close_previous_length [simp]: "length (close_previous cx i m rows) = length rows"
  by (simp add: close_previous_def split: option.split)

lemma close_previous_records:
  assumes "\<And>x. g (closed_by_change cx m x) = g x"
  shows "map g (filter (\<lambda>r. a_employee_id r = e) (close_previous cx i m rows))
    = map g (filter (\<lambda>r. a_employee_id r = e) rows)"
proof (cases "latest_open_debut i rows")
  case None
  then show ?thesis by (simp add: close_previous_def)
next
  case (Some d)
  show ?thesis
    unfolding close_previous_def Some option.case
    using assms by (intro update_first_filter_map) simp_all
qed


lemma update_employee_applied:
  assumes "employeeUpdateSchema u"
    and "filter (\<lambda>e. e_id e = i) (employees db) = cur # rest"
    and "isAffectationChange u cur \<longrightarrow> truthy_str (motif_changement u)"
  shows "fst (update_employee cx i u db) = Reply 200 (AffectationChanged (isAffectationChange u cur))"
    and "employee_affectations (snd (update_employee cx i u db)) =
      (if isAffectationChange u cur then
         close_previous cx i (or_str (motif_changement u) (js ''Mutation/Changement de poste''))
           (employee_affectations db) @ [new_affectation cx i u cur]
       else employee_affectations db)"
    and "employees (snd (update_employee cx i u db)) =
      (case buildUpdateQuery u of
         None \<Rightarrow> employees db
       | Some f \<Rightarrow> update_where (\<lambda>e. e_id e = i) f (employees db))"
    and "leave_requests (snd (update_employee cx i u db)) = leave_requests db"
    and "contracts (snd (update_employee cx i u db)) = contracts db"
  using assms by (auto simp: update_employee_def Let_def split: option.split)

lemma update_employee_rejected:
  assumes "\<not> employeeUpdateSchema u \<or> filter (\<lambda>e. e_id e = i) (employees db) = []
     \<or> (\<exists>cur rest. filter (\<lambda>e. e_id e = i) (employees db) = cur # rest
          \<and> isAffectationChange u cur \<and> \<not> truthy_str (motif_changement u))"
  shows "snd (update_employee cx i u db) = db"
    and "http_status (fst (update_employee cx i u db)) \<noteq> 200"
  using assms by (auto simp: update_employee_def)

lemma update_employee_cases:
  obtains (rejected) "snd (update_employee cx i u db) = db"
      "http_status (fst (update_employee cx i u db)) \<noteq> 200"
  | (applied) cur rest where "employeeUpdateSchema u"
      "filter (\<lambda>e. e_id e = i) (employees db) = cur # rest"
      "isAffectationChange u cur \<longrightarrow> truthy_str (motif_changement u)"
proof (cases "employeeUpdateSchema u")
  case False
  then show ?thesis by (intro rejected update_employee_rejected) simp_all
next
  case True
  show ?thesis
  proof (cases "filter (\<lambda>e. e_id e = i) (employees db)")
    case Nil
    then show ?thesis by (intro rejected update_employee_rejected) simp_all
  next
    case (Cons cur rest)
    show ?thesis
    proof (cases "isAffectationChange u cur \<and> \<not> truthy_str (motif_changement u)")
      case True
      with Cons show ?thesis by (intro rejected update_employee_rejected) simp_all
    next
      case False
      with True Cons show ?thesis by (intro applied [of cur rest]) simp_all
    qed
  qed
qed


lemma history_inv_same:
  assumes "history_inv S db" and "emp_ids db' = emp_ids db"
    and "employee_affectations db' = employee_affectations db" and "S \<subseteq> S'"
  shows "history_inv S' db'"
  using assms unfolding history_inv_def open_records_def by auto

lemma history_inv_hire:
  assumes "history_inv S db" and "emp_ids db' = insert n (emp_ids db)" and "n \<notin> emp_ids db"
    and "employee_affectations db' = employee_affectations db @ [h]"
    and "is_open_of n h" and "S \<subseteq> S'"
  shows "history_inv S' db'"
proof -
  have o: "open_records i db' = open_records i db @ (if i = n then [h] else [])" for i
    using assms(4,5) by (auto simp: open_records_def is_open_of_def)
  have n: "open_records n db = []"
    using assms(1,3) unfolding history_inv_def by blast
  show ?thesis
    unfolding history_inv_def
  proof (intro allI conjI impI)
    fix i
    show "length (open_records i db') \<le> 1"
      using assms(1) n unfolding o history_inv_def by (cases "i = n") auto
    show "open_records i db' = []" if "i \<notin> emp_ids db'"
      using assms(1,2) that unfolding o history_inv_def by auto
    show "length (open_records i db') = 1" if "i \<in> emp_ids db' \<and> i \<notin> S'"
      using assms(1,2,6) that n unfolding o history_inv_def by (cases "i = n") auto
  qed
qed

lemma history_inv_change:
  assumes "history_inv S db" and "emp_ids db' = emp_ids db" and "i \<in> emp_ids db"
    and "employee_affectations db' = close_previous cx i m (employee_affectations db) @ [h]"
    and "is_open_of i h" and "S \<subseteq> S'"
  shows "history_inv S' db'"
proof -
  have le: "length (filter (is_open_of i) (employee_affectations db)) \<le> 1"
    using assms(1) unfolding history_inv_def open_records_def by blast
  have oi: "open_records i db' = [h]"
    using assms(4,5) close_previous_no_open [OF le] by (simp add: open_records_def)
  have oj: "open_records j db' = open_records j db" if "j \<noteq> i" for j
    using assms(4,5) that close_previous_other [OF that]
    by (auto simp: open_records_def is_open_of_def)
  show ?thesis
    unfolding history_inv_def
  proof (intro allI conjI impI)
    fix j
    show "length (open_records j db') \<le> 1"
      using assms(1) oi oj [of j] unfolding history_inv_def by (cases "j = i") auto
    show "open_records j db' = []" if "j \<notin> emp_ids db'"
      using assms(1,2,3) that oj [of j] unfolding history_inv_def by (cases "j = i") auto
    show "length (open_records j db') = 1" if "j \<in> emp_ids db' \<and> j \<notin> S'"
      using assms(1,2,6) that oi oj [of j] unfolding history_inv_def by (cases "j = i") auto
  qed
qed

lemma history_inv_archive:
  assumes "history_inv S db" and "emp_ids db' = emp_ids db"
    and "employee_affectations db' =
      update_where (is_open_of i) (closed_by_archive cx) (employee_affectations db)"
    and "insert i S \<subseteq> S'"
  shows "history_inv S' db'"
proof -
  have oi: "open_records i db' = []"
    using assms(3) by (simp add: open_records_def open_after_archive)
  have oj: "open_records j db' = open_records j db" if "j \<noteq> i" for j
    using assms(3) open_other_after_archive [OF that] by (simp add: open_records_def)
  show ?thesis
    unfolding history_inv_def
  proof (intro allI conjI impI)
    fix j
    show "length (open_records j db') \<le> 1"
      using assms(1) oi oj [of j] unfolding history_inv_def by (cases "j = i") auto
    show "open_records j db' = []" if "j \<notin> emp_ids db'"
      using assms(1,2) that oi oj [of j] unfolding history_inv_def by (cases "j = i") auto
    show "length (open_records j db') = 1" if "j \<in> emp_ids db' \<and> j \<notin> S'"
      using assms(1,2,4) that oi oj [of j] unfolding history_inv_def by (cases "j = i") auto
  qed
qed


lemma create_employee_cases:
  obtains (rejected) "snd (create_employee cfg cx v db) = db"
      "http_status (fst (create_employee cfg cx v db)) \<noteq> 201"
  | (created) row where
      "fst (create_employee cfg cx v db) = Reply 201 (EmployeeId (e_id row))"
      "e_id row = insertId (map e_id (employees db))"
      "placement.truncate row = initial_placement v"
      "snd (create_employee cfg cx v db) =
         db \<lparr> employees := employees db @ [row],
              employee_affectations :=
                employee_affectations db @ [hire_history cx v (e_id row)] \<rparr>"
proof (cases "employeeCreationSchema v
    \<and> filter (\<lambda>e. matricule e = n_matricule v) (employees db) = []
    \<and> \<not> (n_site_id v \<notin> set (sites db) \<or> n_department_id v \<notin> set (departments db)
              \<or> n_service_id v \<notin> set (services db) \<or> n_team_id v \<notin> set (teams db))")
  case False
  then have "snd (create_employee cfg cx v db) = db"
      "http_status (fst (create_employee cfg cx v db)) \<noteq> 201"
    by (auto simp: create_employee_def)
  then show ?thesis by (rule rejected)
next
  case True
  let ?row = "\<lparr> site_id = n_site_id v, department_id = n_department_id v,
                     service_id = n_service_id v, team_id = n_team_id v,
                     position = n_position v, fonction = n_fonction v,
                     e_id = insertId (map e_id (employees db)), matricule = n_matricule v,
                     nom = n_nom v, prenom = n_prenom v, statut = employees_statut_default cfg,
                     user_id = n_user_id v, position_id = None \<rparr>"
  from True have "create_employee cfg cx v db =
      (Reply 201 (EmployeeId (e_id ?row)),
       db \<lparr> employees := employees db @ [?row],
            employee_affectations :=
              employee_affectations db @ [hire_history cx v (e_id ?row)] \<rparr>)"
    by (simp add: create_employee_def Let_def)
  then show ?thesis
    by (intro created [of ?row])
       (simp_all add: placement.truncate_def initial_placement_def)
qed

lemma create_leave_history:
  "employee_affectations (snd (create_leave cx v db)) = employee_affectations db"
  "employees (snd (create_leave cx v db)) = employees db"
  by (simp_all add: create_leave_def Let_def)

lemma create_contract_history:
  "employee_affectations (snd (create_contract cfg v db)) = employee_affectations db"
  "map e_id (employees (snd (create_contract cfg v db))) = map e_id (employees db)"
  by (simp_all add: create_contract_def Let_def update_where_ids)

lemma archive_employee_cases:
  obtains (rejected) "archive_employee cfg cx i db = (Reply 404 Message, db)"
  | (archived) "archive_employee cfg cx i db =
    (Reply 200 (EmployeeId i),
     db \<lparr> employees :=
            update_where (\<lambda>e. e_id e = i) (\<lambda>e. e \<lparr> statut := Licencie, user_id := None \<rparr>)
              (employees db),
          employee_affectations :=
            update_where (is_open_of i) (closed_by_archive cx) (employee_affectations db) \<rparr>)"
proof (cases "if found_rows cfg then filter (\<lambda>e. e_id e = i) (employees db) = []
     else filter (\<lambda>e. statut e \<noteq> Licencie) (filter (\<lambda>e. e_id e = i) (employees db)) = []")
  case True
  then show ?thesis by (intro rejected archive_employee_none)
next
  case False
  then have "filter (\<lambda>e. e_id e = i) (employees db) \<noteq> []"
    by (auto simp: filter_empty_conv split: if_splits)
  moreover from False have "found_rows cfg \<or>
      filter (\<lambda>e. statut e \<noteq> Licencie) (filter (\<lambda>e. e_id e = i) (employees db)) \<noteq> []"
    by (auto split: if_splits)
  ultimately show ?thesis by (intro archived archive_employee_found)
qed


lemma emp_ids_map: "emp_ids db = set (map e_id (employees db))"
  by (simp add: emp_ids_def)

lemma history_inv_step:
  assumes "history_inv S db"
  shows "history_inv (S \<union> {i. archives cfg db i q}) (snd (handle cfg q db))"
proof (cases q)
  case (Hire cx v)
  show ?thesis
  proof (cases rule: create_employee_cases [of cfg cx v db])
    case rejected
    with assms Hire show ?thesis by (auto intro: history_inv_same)
  next
    case (created row)
    have fresh: "e_id row \<notin> emp_ids db"
      unfolding created(2) emp_ids_map by (rule insertId_fresh)
    show ?thesis
      unfolding Hire handle.simps
    proof (rule history_inv_hire [OF assms _ fresh])
      show "emp_ids (snd (create_employee cfg cx v db)) = insert (e_id row) (emp_ids db)"
        unfolding created(4) by (simp add: emp_ids_def)
      show "employee_affectations (snd (create_employee cfg cx v db))
          = employee_affectations db @ [hire_history cx v (e_id row)]"
        unfolding created(4) by simp
      show "is_open_of (e_id row) (hire_history cx v (e_id row))"
        by (simp add: is_open_of_def hire_history_def)
    qed simp
  qed
next
  case (Update cx i u)
  show ?thesis
  proof (cases rule: update_employee_cases [of cx i u db])
    case rejected
    with assms Update show ?thesis by (auto intro: history_inv_same)
  next
    case (applied cur rest)
    note eff = update_employee_applied [OF applied, of cx]
    have "map e_id (employees (snd (update_employee cx i u db))) = map e_id (employees db)"
    proof (cases "buildUpdateQuery u")
      case None
      then show ?thesis unfolding eff(3) by simp
    next
      case (Some f)
      then show ?thesis
        unfolding eff(3) by (simp add: update_where_ids buildUpdateQuery_id [OF Some])
    qed
    then have ids: "emp_ids (snd (update_employee cx i u db)) = emp_ids db"
      by (simp only: emp_ids_map)
    have mem: "i \<in> emp_ids db"
    proof -
      have "cur \<in> set (filter (\<lambda>e. e_id e = i) (employees db))"
        unfolding applied(2) by simp
      then show ?thesis by (auto simp: emp_ids_def)
    qed
    show ?thesis
    proof (cases "isAffectationChange u cur")
      case True
      show ?thesis
        unfolding Update handle.simps
      proof (rule history_inv_change [OF assms ids mem])
        show "employee_affectations (snd (update_employee cx i u db)) =
          close_previous cx i (or_str (motif_changement u) (js ''Mutation/Changement de poste''))
            (employee_affectations db) @ [new_affectation cx i u cur]"
          unfolding eff(2) using True by simp
        show "is_open_of i (new_affectation cx i u cur)"
          by (simp add: is_open_of_def new_affectation_def)
      qed simp
    next
      case False
      show ?thesis
        unfolding Update handle.simps
      proof (rule history_inv_same [OF assms ids])
        show "employee_affectations (snd (update_employee cx i u db)) = employee_affectations db"
          unfolding eff(2) using False by simp
      qed simp
    qed
  qed
next
  case (Archive cx i)
  show ?thesis
  proof (cases rule: archive_employee_cases [of cfg cx i db])
    case rejected
    with assms Archive show ?thesis by (auto intro: history_inv_same)
  next
    case archived
    have ok: "http_status (fst (archive_employee cfg cx i db)) = 200"
      unfolding archived by simp
    show ?thesis
      unfolding Archive handle.simps
    proof (rule history_inv_archive [OF assms])
      show "emp_ids (snd (archive_employee cfg cx i db)) = emp_ids db"
        unfolding archived emp_ids_map by (simp add: update_where_ids)
      show "employee_affectations (snd (archive_employee cfg cx i db)) =
        update_where (is_open_of i) (closed_by_archive cx) (employee_affectations db)"
        unfolding archived by simp
      show "insert i S \<subseteq> S \<union> {j. archives cfg db j (Archive cx i)}"
        using ok by auto
    qed
  qed
next
  case (Leave cx v)
  show ?thesis
    unfolding Leave handle.simps
    by (rule history_inv_same [OF assms]) (simp_all add: emp_ids_def create_leave_history)
next
  case (Contract v)
  show ?thesis
    unfolding Contract handle.simps
    by (rule history_inv_same [OF assms])
       (simp_all add: emp_ids_map create_contract_history)
qed

lemma history_inv_run:
  "history_inv S db \<Longrightarrow> history_inv (S \<union> {i. archived i cfg qs db}) (run cfg qs db)"
proof (induction qs arbitrary: S db)
  case Nil
  then show ?case by simp
next
  case (Cons q qs)
  have "history_inv (S \<union> {i. archives cfg db i q}) (snd (handle cfg q db))"
    using Cons.prems by (rule history_inv_step)
  then have "history_inv
      (S \<union> {i. archives cfg db i q} \<union> {i. archived i cfg qs (snd (handle cfg q db))})
      (run cfg qs (snd (handle cfg q db)))"
    by (rule Cons.IH)
  moreover have "S \<union> {i. archives cfg db i q} \<union> {i. archived i cfg qs (snd (handle cfg q db))}
      = S \<union> {i. archived i cfg (q # qs) db}"
    by auto
  ultimately show ?case by simp
qed

lemma history_inv_empty: "history_inv {} (empty_db ss ds vs ts)"
  by (simp add: history_inv_def open_records_def empty_db_def emp_ids_def)


text \<open>
  Claim C3 says that from hiring onward an employee has exactly one open history record at
  all times. Archiving closes the open record and opens none: the sample employee, hired on
  day 100 and archived on day 120, is still a row of \<^verbatim>\<open>employees\<close> and has no open record.
\<close>
theorem C3_archived_employee_counterexample:
  "map e_id (employees db_archived) = [1] \<and> length (open_records 1 db_archived) = 0"
proof
  show "map e_id (employees db_archived) = [1]"
    by code_simp
  show "length (open_records 1 db_archived) = 0"
    by code_simp
qed

text \<open>
  Claim C3, amended. In every store reached from an empty one by requests served one after
  the other, no employee has more than one open history record, and an employee whom none
  of these requests has archived (no archive request for the employee was answered with
  200) has exactly one. Hiring inserts exactly one open record for the new employee; an
  update that changes the placement closes the open record and leaves the record it inserts
  as the only open one.
\<close>
theorem C3_open_affectation_records:
  assumes "db = run cfg qs (empty_db ss ds vs ts)"
  shows "length (open_records i db) \<le> 1
    \<and> (i \<in> emp_ids db \<and> \<not> archived i cfg qs (empty_db ss ds vs ts)
         \<longrightarrow> length (open_records i db) = 1)
    \<and> (fst (create_employee cfg cx v db) = Reply 201 (EmployeeId n) \<longrightarrow>
         open_records n (snd (create_employee cfg cx v db)) = [hire_history cx v n])
    \<and> (fst (update_employee cx i u db) = Reply 200 (AffectationChanged True) \<longrightarrow>
         (\<exists>cur. open_records i (snd (update_employee cx i u db)) = [new_affectation cx i u cur]))"
proof -
  have "history_inv ({} \<union> {i. archived i cfg qs (empty_db ss ds vs ts)}) db"
    unfolding assms by (intro history_inv_run history_inv_empty)
  then have inv: "history_inv {i. archived i cfg qs (empty_db ss ds vs ts)} db"
    by simp
  have le: "length (open_records j db) \<le> 1" for j
    using inv unfolding history_inv_def by blast
  have one: "i \<in> emp_ids db \<and> \<not> archived i cfg qs (empty_db ss ds vs ts)
      \<longrightarrow> length (open_records i db) = 1"
    using inv unfolding history_inv_def by blast
  have hire: "open_records n (snd (create_employee cfg cx v db)) = [hire_history cx v n]"
    if ok: "fst (create_employee cfg cx v db) = Reply 201 (EmployeeId n)"
  proof (cases rule: create_employee_cases [of cfg cx v db])
    case rejected
    with ok show ?thesis by simp
  next
    case (created row)
    with ok have n: "e_id row = n" by simp
    have "n \<notin> emp_ids db"
      unfolding n [symmetric] created(2) emp_ids_map by (rule insertId_fresh)
    then have "open_records n db = []"
      using inv unfolding history_inv_def by blast
    then show ?thesis
      unfolding created(4) n
      by (simp add: open_records_def is_open_of_def hire_history_def)
  qed
  have change: "\<exists>cur. open_records i (snd (update_employee cx i u db)) = [new_affectation cx i u cur]"
    if ok: "fst (update_employee cx i u db) = Reply 200 (AffectationChanged True)"
  proof (cases rule: update_employee_cases [of cx i u db])
    case rejected
    with ok show ?thesis by simp
  next
    case (applied cur rest)
    note eff = update_employee_applied [OF applied, of cx]
    from ok eff(1) have ch: "isAffectationChange u cur" by simp
    have "filter (is_open_of i) (close_previous cx i
        (or_str (motif_changement u) (js ''Mutation/Changement de poste'')) (employee_affectations db)) = []"
      using le [of i] by (intro close_previous_no_open) (simp add: open_records_def)
    then have "open_records i (snd (update_employee cx i u db)) = [new_affectation cx i u cur]"
      unfolding open_records_def eff(2) using ch
      by (simp add: is_open_of_def new_affectation_def)
    then show ?thesis ..
  qed
  from le [of i] one hire change show ?thesis by blast
qed

text \<open>
  The amended C3 on the sample store, reached here by an archive request for the id 1 that
  is answered with 404, since nobody has been hired yet, and the hiring: the hired employee
  has one open record, a second hiring gives the new employee one, and after a change of
  position there is one again.
\<close>
theorem C3_open_affectation_records_witness:
  "db_hired = run cfg0 [Archive (day 90) 1, Hire (day 100) hire0] (empty_db [1, 2] [1] [1] [1]) \<and>
   1 \<in> emp_ids db_hired \<and>
   \<not> archived 1 cfg0 [Archive (day 90) 1, Hire (day 100) hire0] (empty_db [1, 2] [1] [1] [1]) \<and>
   length (open_records 1 db_hired) = 1 \<and>
   fst (create_employee cfg0 (day 105) hire1 db_hired) = Reply 201 (EmployeeId 2) \<and>
   open_records 2 (snd (create_employee cfg0 (day 105) hire1 db_hired))
     = [hire_history (day 105) hire1 2] \<and>
   fst (update_employee (day 105) 1 upd_chef db_hired) = Reply 200 (AffectationChanged True) \<and>
   length (open_records 1 (snd (update_employee (day 105) 1 upd_chef db_hired))) = 1"
proof -
  have r: "db_hired = run cfg0 [Archive (day 90) 1, Hire (day 100) hire0] (empty_db [1, 2] [1] [1] [1])"
    by code_simp
  note T = C3_open_affectation_records [OF r, of 1 "day 105" hire1 2 upd_chef]
  have h1: "1 \<in> emp_ids db_hired"
    unfolding emp_ids_map by code_simp
  have h2: "\<not> archived 1 cfg0 [Archive (day 90) 1, Hire (day 100) hire0] (empty_db [1, 2] [1] [1] [1])"
    by code_simp
  have h3: "fst (create_employee cfg0 (day 105) hire1 db_hired) = Reply 201 (EmployeeId 2)"
    by code_simp
  have h4: "fst (update_employee (day 105) 1 upd_chef db_hired) = Reply 200 (AffectationChanged True)"
    by code_simp
  have c1: "length (open_records 1 db_hired) = 1"
    using T h1 h2 by blast
  have c2: "open_records 2 (snd (create_employee cfg0 (day 105) hire1 db_hired))
     = [hire_history (day 105) hire1 2]"
    using T h3 by blast
  have "\<exists>cur. open_records 1 (snd (update_employee (day 105) 1 upd_chef db_hired))
      = [new_affectation (day 105) 1 upd_chef cur]"
    using T h4 by blast
  then have c3: "length (open_records 1 (snd (update_employee (day 105) 1 upd_chef db_hired))) = 1"
    by auto
  from r h1 h2 c1 h3 c2 h4 c3 show ?thesis by blast
qed

subsection \<open>Changes of placement\<close>

lemma chained_snoc:
  "chained rs \<Longrightarrow> rs \<noteq> [] \<Longrightarrow> ancien r = Some (nouveau (last rs)) \<Longrightarrow> chained (rs @ [r])"
proof (induction rs rule: chained.induct)
  case (1 a b rs)
  then show ?case by simp
qed simp_all

lemma chained_iff_nth:
  "chained rs = (\<forall>k. Suc k < length rs \<longrightarrow> ancien (rs ! Suc k) = Some (nouveau (rs ! k)))"
proof (induction rs rule: chained.induct)
  case (1 a b rs)
  show ?case
  proof
    assume c: "chained (a # b # rs)"
    show "\<forall>k. Suc k < length (a # b # rs) \<longrightarrow>
        ancien ((a # b # rs) ! Suc k) = Some (nouveau ((a # b # rs) ! k))"
    proof (intro allI impI)
      fix k
      assume k: "Suc k < length (a # b # rs)"
      show "ancien ((a # b # rs) ! Suc k) = Some (nouveau ((a # b # rs) ! k))"
      proof (cases k)
        case 0
        with c show ?thesis by simp
      next
        case (Suc j)
        from c have "chained (b # rs)" by simp
        with 1 k Suc have "ancien ((b # rs) ! Suc j) = Some (nouveau ((b # rs) ! j))"
          by simp
        with Suc show ?thesis by simp
      qed
    qed
  next
    assume n: "\<forall>k. Suc k < length (a # b # rs) \<longrightarrow>
        ancien ((a # b # rs) ! Suc k) = Some (nouveau ((a # b # rs) ! k))"
    from n [rule_format, of 0] have h: "ancien b = Some (nouveau a)" by simp
    have "ancien ((b # rs) ! Suc k) = Some (nouveau ((b # rs) ! k))"
      if "Suc k < length (b # rs)" for k
      using n [rule_format, of "Suc k"] that by simp
    with 1 have "chained (b # rs)" by blast
    with h show "chained (a # b # rs)" by simp
  qed
qed simp_all

lemma chained_map_eq:
  assumes "map ancien rs = map ancien rs'" and "map nouveau rs = map nouveau rs'"
  shows "chained rs = chained rs'"
proof -
  from assms(1) have len: "length rs = length rs'"
    by (rule map_eq_imp_length_eq)
  have a: "ancien (rs ! k) = ancien (rs' ! k)" if "k < length rs" for k
    using assms(1) that len by (metis nth_map)
  have n: "nouveau (rs ! k) = nouveau (rs' ! k)" if "k < length rs" for k
    using assms(2) that len by (metis nth_map)
  show ?thesis
    unfolding chained_iff_nth len [symmetric]
    using a n by (metis Suc_lessD)
qed

lemma fk_step:
  assumes "set (map a_employee_id (employee_affectations db)) \<subseteq> emp_ids db"
  shows "set (map a_employee_id (employee_affectations (snd (handle cfg q db))))
    \<subseteq> emp_ids (snd (handle cfg q db))"
proof (cases q)
  case (Hire cx v)
  show ?thesis
  proof (cases rule: create_employee_cases [of cfg cx v db])
    case rejected
    with assms Hire show ?thesis by simp
  next
    case (created row)
    show ?thesis
      unfolding Hire handle.simps created(4) using assms
      by (auto simp: emp_ids_def hire_history_def)
  qed
next
  case (Update cx i u)
  show ?thesis
  proof (cases rule: update_employee_cases [of cx i u db])
    case rejected
    with assms Update show ?thesis by simp
  next
    case (applied cur rest)
    note eff = update_employee_applied [OF applied, of cx]
    have "map e_id (employees (snd (update_employee cx i u db))) = map e_id (employees db)"
    proof (cases "buildUpdateQuery u")
      case None
      then show ?thesis unfolding eff(3) by simp
    next
      case (Some f)
      then show ?thesis
        unfolding eff(3) by (simp add: update_where_ids buildUpdateQuery_id [OF Some])
    qed
    then have ids: "emp_ids (snd (update_employee cx i u db)) = emp_ids db"
      by (simp only: emp_ids_map)
    have mem: "i \<in> emp_ids db"
    proof -
      have "cur \<in> set (filter (\<lambda>e. e_id e = i) (employees db))"
        unfolding applied(2) by simp
      then show ?thesis by (auto simp: emp_ids_def)
    qed
    have m: "map a_employee_id (close_previous cx i m' (employee_affectations db))
        = map a_employee_id (employee_affectations db)" for m'
      by (simp add: close_previous_def update_first_map split: option.split)
    show ?thesis
      unfolding Update handle.simps ids eff(2)
      using assms mem by (auto simp: m new_affectation_def simp del: set_map)
  qed
next
  case (Archive cx i)
  show ?thesis
  proof (cases rule: archive_employee_cases [of cfg cx i db])
    case rejected
    with assms Archive show ?thesis by simp
  next
    case archived
    have m: "map a_employee_id (update_where (is_open_of i) (closed_by_archive cx) rows)
        = map a_employee_id rows" for rows
      by (induction rows) (simp_all add: update_where_def)
    have "emp_ids (snd (archive_employee cfg cx i db)) = emp_ids db"
      unfolding archived emp_ids_map by (simp add: update_where_ids)
    then show ?thesis
      unfolding Archive handle.simps using assms unfolding archived
      by (simp add: m del: set_map)
  qed
next
  case (Leave cx v)
  show ?thesis
    unfolding Leave handle.simps using assms
    by (simp add: emp_ids_def create_leave_history)
next
  case (Contract v)
  show ?thesis
    unfolding Contract handle.simps using assms
    by (simp add: emp_ids_map create_contract_history del: set_map)
qed

lemma fk_run:
  "set (map a_employee_id (employee_affectations db)) \<subseteq> emp_ids db \<Longrightarrow>
   set (map a_employee_id (employee_affectations (run cfg qs db))) \<subseteq> emp_ids (run cfg qs db)"
proof (induction qs arbitrary: db)
  case Nil
  then show ?case by simp
next
  case (Cons q qs)
  from Cons.prems have "set (map a_employee_id (employee_affectations (snd (handle cfg q db))))
    \<subseteq> emp_ids (snd (handle cfg q db))"
    by (rule fk_step)
  then show ?case unfolding run.simps by (rule Cons.IH)
qed

lemma fk_reachable:
  "set (map a_employee_id (employee_affectations (run cfg qs (empty_db ss ds vs ts))))
    \<subseteq> emp_ids (run cfg qs (empty_db ss ds vs ts))"
  by (rule fk_run) (simp add: empty_db_def)


lemma buildUpdateQuery_change:
  assumes "isAffectationChange u cur"
  obtains f where "buildUpdateQuery u = Some f"
    "\<forall>e. placement.truncate (f e) = merged_placement u e" "\<forall>e. e_id (f e) = e_id e"
proof -
  from assms have "\<not> (u_site_id u = None \<and> u_department_id u = None \<and> u_service_id u = None
      \<and> u_team_id u = None \<and> u_position u = None \<and> u_fonction u = None)"
    unfolding isAffectationChange_def truthy_num_def truthy_str_def by auto
  then obtain f where f: "buildUpdateQuery u = Some f"
    unfolding buildUpdateQuery_def by auto
  have "placement.truncate (f e) = merged_placement u e" for e
    using f unfolding buildUpdateQuery_def
    by (auto simp: placement.truncate_def merged_placement_def split: if_splits)
  moreover have "e_id (f e) = e_id e" for e
    using f by (rule buildUpdateQuery_id)
  ultimately show thesis
    using f by (intro that [of f]) simp_all
qed

lemma change_applied:
  assumes ok: "fst (update_employee cx i u db) = Reply 200 (AffectationChanged True)"
  obtains cur rest m where "employeeUpdateSchema u"
    "filter (\<lambda>e. e_id e = i) (employees db) = cur # rest"
    "isAffectationChange u cur" "motif_changement u = Some m"
proof (cases rule: update_employee_cases [of cx i u db])
  case rejected
  with ok show ?thesis by simp
next
  case (applied cur rest)
  note eff = update_employee_applied [OF applied, of cx]
  from ok eff(1) have ch: "isAffectationChange u cur" by simp
  with applied(3) have "truthy_str (motif_changement u)" by simp
  then obtain m where "motif_changement u = Some m"
    by (cases "motif_changement u") (simp_all add: truthy_str_def)
  with applied(1,2) ch show ?thesis by (intro that)
qed

lemma change_effect:
  assumes s: "employeeUpdateSchema u"
    and f: "filter (\<lambda>e. e_id e = i) (employees db) = cur # rest"
    and ch: "isAffectationChange u cur" and m: "motif_changement u = Some m"
  obtains cur' rest' where
    "fst (update_employee cx i u db) = Reply 200 (AffectationChanged True)"
    "employee_affectations (snd (update_employee cx i u db))
       = close_previous cx i m (employee_affectations db) @ [new_affectation cx i u cur]"
    "filter (\<lambda>e. e_id e = i) (employees (snd (update_employee cx i u db))) = cur' # rest'"
    "placement.truncate cur' = merged_placement u cur"
proof -
  have t: "truthy_str (motif_changement u)"
    unfolding motif_truthy [OF s] using m by simp
  have ne: "m \<noteq> []"
    using t m by (simp add: truthy_str_def)
  have ap: "isAffectationChange u cur \<longrightarrow> truthy_str (motif_changement u)"
    using t by simp
  note eff = update_employee_applied [OF s f ap, of cx]
  obtain g where g: "buildUpdateQuery u = Some g"
    "\<forall>e. placement.truncate (g e) = merged_placement u e" "\<forall>e. e_id (g e) = e_id e"
    by (rule buildUpdateQuery_change [OF ch])
  have 1: "fst (update_employee cx i u db) = Reply 200 (AffectationChanged True)"
    using eff(1) ch by simp
  have 2: "employee_affectations (snd (update_employee cx i u db))
       = close_previous cx i m (employee_affectations db) @ [new_affectation cx i u cur]"
    unfolding eff(2) using ch m ne by (simp add: or_str_def)
  have "filter (\<lambda>e. e_id e = i) (employees (snd (update_employee cx i u db)))
      = map g (filter (\<lambda>e. e_id e = i) (employees db))"
    unfolding eff(3) g(1) option.case by (rule update_where_id_filter) (simp add: g(3))
  then have 3: "filter (\<lambda>e. e_id e = i) (employees (snd (update_employee cx i u db)))
      = g cur # map g rest"
    unfolding f by simp
  show thesis
    using 1 2 3 g(2) [rule_format, of cur] by (rule that)
qed


lemma chain_step:
  assumes f: "filter (\<lambda>e. e_id e = i) (employees db) = cur # rest"
    and ne: "records_of i db \<noteq> []"
    and live: "nouveau (last (records_of i db)) = placement.truncate cur"
    and c: "chained (records_of i db)"
    and ok: "fst (update_employee cx i u db) = Reply 200 (AffectationChanged True)"
  obtains cur' rest' where
    "filter (\<lambda>e. e_id e = i) (employees (snd (update_employee cx i u db))) = cur' # rest'"
    "records_of i (snd (update_employee cx i u db)) \<noteq> []"
    "nouveau (last (records_of i (snd (update_employee cx i u db)))) = placement.truncate cur'"
    "chained (records_of i (snd (update_employee cx i u db)))"
    "length (records_of i (snd (update_employee cx i u db))) = Suc (length (records_of i db))"
proof -
  obtain cur0 rest0 m where a: "employeeUpdateSchema u"
    "filter (\<lambda>e. e_id e = i) (employees db) = cur0 # rest0"
    "isAffectationChange u cur0" "motif_changement u = Some m"
    using ok by (rule change_applied)
  from a(2) f have cur0: "cur0 = cur" by simp
  obtain cur' rest' where e:
    "employee_affectations (snd (update_employee cx i u db))
       = close_previous cx i m (employee_affectations db) @ [new_affectation cx i u cur]"
    "filter (\<lambda>e. e_id e = i) (employees (snd (update_employee cx i u db))) = cur' # rest'"
    "placement.truncate cur' = merged_placement u cur"
    using change_effect [OF a(1) f a(3) [unfolded cur0] a(4), of cx] by metis
  let ?X = "filter (\<lambda>r. a_employee_id r = i) (close_previous cx i m (employee_affectations db))"
  let ?new = "new_affectation cx i u cur"
  have R': "records_of i (snd (update_employee cx i u db)) = ?X @ [?new]"
    unfolding records_of_def e(1) by (simp add: new_affectation_def)
  have ma: "map ancien ?X = map ancien (records_of i db)"
    unfolding records_of_def by (rule close_previous_records) simp
  have mn: "map nouveau ?X = map nouveau (records_of i db)"
    unfolding records_of_def by (rule close_previous_records) simp
  from mn have len: "length ?X = length (records_of i db)"
    by (rule map_eq_imp_length_eq)
  with ne have Xne: "?X \<noteq> []" by auto
  have cX: "chained ?X"
    using c chained_map_eq [OF ma mn] by simp
  have "nouveau (last ?X) = last (map nouveau ?X)"
    using Xne by (simp add: last_map)
  also have "\<dots> = nouveau (last (records_of i db))"
    unfolding mn using ne by (simp add: last_map)
  finally have lX: "nouveau (last ?X) = placement.truncate cur"
    using live by simp
  have an: "ancien ?new = Some (nouveau (last ?X))"
    unfolding lX by (simp add: new_affectation_def)
  have 1: "records_of i (snd (update_employee cx i u db)) \<noteq> []"
    unfolding R' by simp
  have 2: "nouveau (last (records_of i (snd (update_employee cx i u db)))) = placement.truncate cur'"
    unfolding R' e(3) by (simp add: new_affectation_def new_placement_merged [OF a(1)])
  have 3: "chained (records_of i (snd (update_employee cx i u db)))"
    unfolding R' using cX Xne an by (rule chained_snoc)
  have 4: "length (records_of i (snd (update_employee cx i u db))) = Suc (length (records_of i db))"
    unfolding R' using len by simp
  from e(2) 1 2 3 4 show thesis by (rule that)
qed

lemma chain_changes:
  assumes "filter (\<lambda>e. e_id e = i) (employees db) = cur # rest"
    and "records_of i db \<noteq> []"
    and "nouveau (last (records_of i db)) = placement.truncate cur"
    and "chained (records_of i db)"
    and "all_changed us i db"
  shows "chained (records_of i (changes us i db))
    \<and> length (records_of i (changes us i db)) = length (records_of i db) + length us"
  using assms
proof (induction us arbitrary: db cur rest)
  case Nil
  then show ?case by simp
next
  case (Cons p us)
  obtain cx u where p: "p = (cx, u)" by (cases p)
  from Cons.prems(5) have ok: "fst (update_employee cx i u db) = Reply 200 (AffectationChanged True)"
    and rest: "all_changed us i (snd (update_employee cx i u db))"
    unfolding p by simp_all
  obtain cur' rest' where s:
    "filter (\<lambda>e. e_id e = i) (employees (snd (update_employee cx i u db))) = cur' # rest'"
    "records_of i (snd (update_employee cx i u db)) \<noteq> []"
    "nouveau (last (records_of i (snd (update_employee cx i u db)))) = placement.truncate cur'"
    "chained (records_of i (snd (update_employee cx i u db)))"
    "length (records_of i (snd (update_employee cx i u db))) = Suc (length (records_of i db))"
    by (rule chain_step [OF Cons.prems(1-4) ok])
  from Cons.IH [OF s(1-4) rest] s(5) show ?case
    unfolding p by simp
qed

lemma hired_history:
  assumes reach: "db = run cfg qs (empty_db ss ds vs ts)"
    and ok: "fst (create_employee cfg cx v db) = Reply 201 (EmployeeId n)"
  obtains row where
    "filter (\<lambda>e. e_id e = n) (employees (snd (create_employee cfg cx v db))) = [row]"
    "records_of n (snd (create_employee cfg cx v db)) = [hire_history cx v n]"
    "placement.truncate row = initial_placement v"
proof (cases rule: create_employee_cases [of cfg cx v db])
  case rejected
  with ok show ?thesis by simp
next
  case (created row)
  with ok have n: "e_id row = n" by simp
  have fresh: "n \<notin> emp_ids db"
    unfolding n [symmetric] created(2) emp_ids_map by (rule insertId_fresh)
  then have "filter (\<lambda>e. e_id e = n) (employees db) = []"
    by (auto simp: emp_ids_def filter_empty_conv)
  then have 1: "filter (\<lambda>e. e_id e = n) (employees (snd (create_employee cfg cx v db))) = [row]"
    unfolding created(4) using n by simp
  have "set (map a_employee_id (employee_affectations db)) \<subseteq> emp_ids db"
    unfolding reach by (rule fk_reachable)
  with fresh have "filter (\<lambda>r. a_employee_id r = n) (employee_affectations db) = []"
    by (auto simp: filter_empty_conv)
  then have 2: "records_of n (snd (create_employee cfg cx v db)) = [hire_history cx v n]"
    unfolding records_of_def created(4) n by (simp add: hire_history_def)
  from 1 2 created(3) show ?thesis by (rule that)
qed


text \<open>
  Claim C4 says that the closure reason is appended to the comment of the record that is
  closed. The statement is \<^verbatim>\<open>SET commentaire = CONCAT('Affectation terminee suite a: ', ?)\<close>
  (with the accents): the comment is replaced. The record opened on day 110 with the comment
  \<^verbatim>\<open>Passage chef\<close> carries, once closed by the change of day 130, the fixed phrase and the
  reason only.
\<close>
theorem C4_comment_overwritten_counterexample:
  "map commentaire (employee_affectations db_changed)
     = [Some (closing_comment (js ''Promotion'')), Some (js ''Passage chef'')] \<and>
   map commentaire (employee_affectations (snd (update_employee (day 130) 1 upd_site db_changed)))
     = [Some (closing_comment (js ''Promotion'')), Some (closing_comment (js ''Mutation'')), None] \<and>
   take 12 (closing_comment (js ''Mutation'')) \<noteq> js ''Passage chef''"
proof (intro conjI)
  show "map commentaire (employee_affectations db_changed)
     = [Some (closing_comment (js ''Promotion'')), Some (js ''Passage chef'')]"
    by code_simp
  show "map commentaire (employee_affectations (snd (update_employee (day 130) 1 upd_site db_changed)))
     = [Some (closing_comment (js ''Promotion'')), Some (closing_comment (js ''Mutation'')), None]"
    by code_simp
  show "take 12 (closing_comment (js ''Mutation'')) \<noteq> js ''Passage chef''"
    by code_simp
qed

text \<open>
  Claim C4, amended. An update that passes the schema, changes a placement field of an
  existing employee and supplies \<^verbatim>\<open>motif_changement\<close> is answered with 200 and does three
  things in one step. The open record of the employee is closed: its \<^verbatim>\<open>date_fin\<close> is the
  day before the start of the new record and its comment is replaced by the fixed phrase
  followed by the reason. A record is appended that starts today, is open, has the
  pre-update placement as old snapshot and, as new snapshot, the supplied value of each
  supplied field and the old value of each absent one. The live row takes the placement of
  the new snapshot. Hence after a hiring and \<open>N\<close> such changes the employee has \<open>N + 1\<close>
  records, and the old snapshot of each record but the first is the new snapshot of the
  record before it.
\<close>
theorem C4_placement_change:
  "(employeeUpdateSchema u \<and> filter (\<lambda>e. e_id e = i) (employees db) = cur # rest
      \<and> placement_differs u cur \<and> motif_changement u = Some m \<longrightarrow>
     (\<exists>cur' rest'.
        fst (update_employee cx i u db) = Reply 200 (AffectationChanged True)
        \<and> employee_affectations (snd (update_employee cx i u db))
            = close_previous cx i m (employee_affectations db)
              @ [\<lparr> a_employee_id = i, date_debut = today cx, date_fin = None, motif = Some m,
                   commentaire = comment_or_null (commentaire_changement u),
                   created_by_user_id = user cx, ancien = Some (placement.truncate cur),
                   nouveau = merged_placement u cur \<rparr>]
        \<and> (\<forall>r. open_records i db = [r] \<longrightarrow>
              (\<exists>pre post. employee_affectations db = pre @ r # post
                 \<and> close_previous cx i m (employee_affectations db)
                     = pre @ r \<lparr> date_fin := Some (today cx - 1),
                                commentaire := Some (closing_comment m),
                                created_by_user_id := user cx \<rparr> # post))
        \<and> filter (\<lambda>e. e_id e = i) (employees (snd (update_employee cx i u db))) = cur' # rest'
        \<and> placement.truncate cur' = merged_placement u cur))
   \<and> (db1 = run cfg qs (empty_db ss ds vs ts)
      \<and> fst (create_employee cfg cx0 v db1) = Reply 201 (EmployeeId n)
      \<and> all_changed us n (snd (create_employee cfg cx0 v db1)) \<longrightarrow>
        length (records_of n (changes us n (snd (create_employee cfg cx0 v db1)))) = length us + 1
        \<and> (\<forall>k. Suc k < length (records_of n (changes us n (snd (create_employee cfg cx0 v db1))))
              \<longrightarrow> ancien (records_of n (changes us n (snd (create_employee cfg cx0 v db1))) ! Suc k)
                  = Some (nouveau
                      (records_of n (changes us n (snd (create_employee cfg cx0 v db1))) ! k))))"
proof (intro conjI impI)
  assume a: "employeeUpdateSchema u \<and> filter (\<lambda>e. e_id e = i) (employees db) = cur # rest
      \<and> placement_differs u cur \<and> motif_changement u = Some m"
  then have s: "employeeUpdateSchema u"
    and f: "filter (\<lambda>e. e_id e = i) (employees db) = cur # rest"
    and m: "motif_changement u = Some m"
    by simp_all
  from a have ch: "isAffectationChange u cur"
    by (simp only: isAffectationChange_iff [OF s])
  obtain cur' rest' where e:
    "fst (update_employee cx i u db) = Reply 200 (AffectationChanged True)"
    "employee_affectations (snd (update_employee cx i u db))
       = close_previous cx i m (employee_affectations db) @ [new_affectation cx i u cur]"
    "filter (\<lambda>e. e_id e = i) (employees (snd (update_employee cx i u db))) = cur' # rest'"
    "placement.truncate cur' = merged_placement u cur"
    by (rule change_effect [OF s f ch m])
  have new: "new_affectation cx i u cur =
      \<lparr> a_employee_id = i, date_debut = today cx, date_fin = None, motif = Some m,
        commentaire = comment_or_null (commentaire_changement u),
        created_by_user_id = user cx, ancien = Some (placement.truncate cur),
        nouveau = merged_placement u cur \<rparr>"
    by (simp add: new_affectation_def new_placement_merged [OF s] m)
  have closing: "\<exists>pre post. employee_affectations db = pre @ r # post
                 \<and> close_previous cx i m (employee_affectations db)
                     = pre @ r \<lparr> date_fin := Some (today cx - 1),
                                commentaire := Some (closing_comment m),
                                created_by_user_id := user cx \<rparr> # post"
    if "open_records i db = [r]" for r
  proof -
    from that have "filter (is_open_of i) (employee_affectations db) = [r]"
      by (simp add: open_records_def)
    then obtain pre post where "employee_affectations db = pre @ r # post"
      "close_previous cx i m (employee_affectations db) = pre @ closed_by_change cx m r # post"
      by (rule close_previous_single)
    then show ?thesis
      unfolding closed_by_change_def by blast
  qed
  show "\<exists>cur' rest'.
        fst (update_employee cx i u db) = Reply 200 (AffectationChanged True)
        \<and> employee_affectations (snd (update_employee cx i u db))
            = close_previous cx i m (employee_affectations db)
              @ [\<lparr> a_employee_id = i, date_debut = today cx, date_fin = None, motif = Some m,
                   commentaire = comment_or_null (commentaire_changement u),
                   created_by_user_id = user cx, ancien = Some (placement.truncate cur),
                   nouveau = merged_placement u cur \<rparr>]
        \<and> (\<forall>r. open_records i db = [r] \<longrightarrow>
              (\<exists>pre post. employee_affectations db = pre @ r # post
                 \<and> close_previous cx i m (employee_affectations db)
                     = pre @ r \<lparr> date_fin := Some (today cx - 1),
                                commentaire := Some (closing_comment m),
                                created_by_user_id := user cx \<rparr> # post))
        \<and> filter (\<lambda>e. e_id e = i) (employees (snd (update_employee cx i u db))) = cur' # rest'
        \<and> placement.truncate cur' = merged_placement u cur"
    using e(1) e(2) [unfolded new] closing e(3,4)
    by (intro exI [of _ cur'] exI [of _ rest'] conjI allI impI) blast+
next
  assume b: "db1 = run cfg qs (empty_db ss ds vs ts)
      \<and> fst (create_employee cfg cx0 v db1) = Reply 201 (EmployeeId n)
      \<and> all_changed us n (snd (create_employee cfg cx0 v db1))"
  then have reach: "db1 = run cfg qs (empty_db ss ds vs ts)"
    and ok: "fst (create_employee cfg cx0 v db1) = Reply 201 (EmployeeId n)"
    and all: "all_changed us n (snd (create_employee cfg cx0 v db1))"
    by blast+
  let ?db = "snd (create_employee cfg cx0 v db1)"
  obtain row where h: "filter (\<lambda>e. e_id e = n) (employees ?db) = [row]"
    "records_of n ?db = [hire_history cx0 v n]"
    "placement.truncate row = initial_placement v"
    by (rule hired_history [OF reach ok])
  have 1: "records_of n ?db \<noteq> []"
    unfolding h(2) by simp
  have 2: "nouveau (last (records_of n ?db)) = placement.truncate row"
    unfolding h(2,3) by (simp add: hire_history_def)
  have 3: "chained (records_of n ?db)"
    unfolding h(2) by simp
  from chain_changes [OF h(1) 1 2 3 all]
  have c: "chained (records_of n (changes us n ?db))"
    and l: "length (records_of n (changes us n ?db)) = length (records_of n ?db) + length us"
    by simp_all
  from l show "length (records_of n (changes us n ?db)) = length us + 1"
    unfolding h(2) by simp
  from c show "\<forall>k. Suc k < length (records_of n (changes us n ?db))
              \<longrightarrow> ancien (records_of n (changes us n ?db) ! Suc k)
                  = Some (nouveau (records_of n (changes us n ?db) ! k))"
    unfolding chained_iff_nth .
qed


text \<open>
  The amended C4 on the sample store: one change of position, and a hiring followed by a
  change of position and a change of site.
\<close>
theorem C4_placement_change_witness:
  "employeeUpdateSchema upd_chef \<and>
   filter (\<lambda>e. e_id e = 1) (employees db_hired) = hd (employees db_hired) # [] \<and>
   placement_differs upd_chef (hd (employees db_hired)) \<and>
   motif_changement upd_chef = Some (js ''Promotion'') \<and>
   fst (update_employee (day 110) 1 upd_chef db_hired) = Reply 200 (AffectationChanged True) \<and>
   length (employee_affectations (snd (update_employee (day 110) 1 upd_chef db_hired))) = 2 \<and>
   db0 = run cfg0 [] (empty_db [1, 2] [1] [1] [1]) \<and>
   fst (create_employee cfg0 (day 100) hire0 db0) = Reply 201 (EmployeeId 1) \<and>
   all_changed [(day 110, upd_chef), (day 130, upd_site)] 1
     (snd (create_employee cfg0 (day 100) hire0 db0)) \<and>
   length (records_of 1 (changes [(day 110, upd_chef), (day 130, upd_site)] 1
     (snd (create_employee cfg0 (day 100) hire0 db0)))) = 3"
proof -
  have h1: "employeeUpdateSchema upd_chef"
    by code_simp
  have h2: "filter (\<lambda>e. e_id e = 1) (employees db_hired) = hd (employees db_hired) # []"
    by code_simp
  have h3: "placement_differs upd_chef (hd (employees db_hired))"
    by code_simp
  have h4: "motif_changement upd_chef = Some (js ''Promotion'')"
    by code_simp
  have g1: "db0 = run cfg0 [] (empty_db [1, 2] [1] [1] [1])"
    by (simp add: db0_def)
  have g2: "fst (create_employee cfg0 (day 100) hire0 db0) = Reply 201 (EmployeeId 1)"
    by code_simp
  have g3: "all_changed [(day 110, upd_chef), (day 130, upd_site)] 1
     (snd (create_employee cfg0 (day 100) hire0 db0))"
    by code_simp
  note T = C4_placement_change [of upd_chef 1 db_hired "hd (employees db_hired)" "[]"
      "js ''Promotion''" "day 110" db0 cfg0 "[]" "[1, 2]" "[1]" "[1]" "[1]" "day 100" hire0 1
      "[(day 110, upd_chef), (day 130, upd_site)]"]
  from T h1 h2 h3 h4 obtain cur' rest' where
    c1: "fst (update_employee (day 110) 1 upd_chef db_hired) = Reply 200 (AffectationChanged True)"
    and c2: "employee_affectations (snd (update_employee (day 110) 1 upd_chef db_hired))
            = close_previous (day 110) 1 (js ''Promotion'') (employee_affectations db_hired)
              @ [\<lparr> a_employee_id = 1, date_debut = today (day 110), date_fin = None,
                   motif = Some (js ''Promotion''),
                   commentaire = comment_or_null (commentaire_changement upd_chef),
                   created_by_user_id = user (day 110),
                   ancien = Some (placement.truncate (hd (employees db_hired))),
                   nouveau = merged_placement upd_chef (hd (employees db_hired)) \<rparr>]"
    by blast
  have "length (employee_affectations db_hired) = 1"
    by code_simp
  then have c3: "length (employee_affectations (snd (update_employee (day 110) 1 upd_chef db_hired))) = 2"
    unfolding c2 by simp
  from T g1 g2 g3 have c4: "length (records_of 1 (changes [(day 110, upd_chef), (day 130, upd_site)] 1
     (snd (create_employee cfg0 (day 100) hire0 db0)))) = length [(day 110, upd_chef), (day 130, upd_site)] + 1"
    by blast
  then have c5: "length (records_of 1 (changes [(day 110, upd_chef), (day 130, upd_site)] 1
     (snd (create_employee cfg0 (day 100) hire0 db0)))) = 3"
    by simp
  from h1 h2 h3 h4 c1 c3 g1 g2 g3 c5 show ?thesis by blast
qed

section \<open>Properties of the leave route\<close>

lemma overlap_dates_iff:
  assumes "a \<le> b" and "c \<le> d"
  shows "(between a c d \<or> between b c d \<or> between c a b) = (\<exists>x. between x a b \<and> between x c d)"
proof
  assume "between a c d \<or> between b c d \<or> between c a b"
  then show "\<exists>x. between x a b \<and> between x c d"
    using assms unfolding between_def by (elim disjE) (rule exI [of _ a], simp, rule exI [of _ b], simp, rule exI [of _ c], simp)
next
  assume "\<exists>x. between x a b \<and> between x c d"
  then show "between a c d \<or> between b c d \<or> between c a b"
    unfolding between_def by auto
qed

lemma overlap_row_iff:
  assumes "l_date_debut v \<le> l_date_fin v" and "lr_date_debut r \<le> lr_date_fin r"
  shows "overlap_row v r =
    (lr_employee_id r = l_employee_id v \<and> statut_actuel r \<in> {Soumis, En_attente, Approuve} \<and>
     (\<exists>x. between x (l_date_debut v) (l_date_fin v) \<and> between x (lr_date_debut r) (lr_date_fin r)))"
  unfolding overlap_row_def overlap_dates_iff [OF assms]
  by simp

lemma overlap_row_if:
  assumes "lr_employee_id r = l_employee_id v" "statut_actuel r \<in> {Soumis, En_attente, Approuve}"
    and "\<exists>x. between x (l_date_debut v) (l_date_fin v) \<and> between x (lr_date_debut r) (lr_date_fin r)"
  shows "overlap_row v r"
proof -
  from assms(3) obtain x where x: "between x (l_date_debut v) (l_date_fin v)"
    "between x (lr_date_debut r) (lr_date_fin r)"
    by blast
  then have "l_date_debut v \<le> l_date_fin v" "lr_date_debut r \<le> lr_date_fin r"
    unfolding between_def by linarith+
  then show ?thesis using assms overlap_row_iff by blast
qed

lemma active_filter:
  "(filter (\<lambda>e. e_id e = i \<and> statut e = Actif) rows = [])
     = (\<not> (\<exists>e \<in> set rows. e_id e = i \<and> statut e = Actif))"
  by (simp add: filter_empty_conv)

lemma create_leave_inserted:
  assumes "leaveRequestSchema cx v"
    and "filter (\<lambda>e. e_id e = l_employee_id v \<and> statut e = Actif) (employees db) \<noteq> []"
    and "filter (overlap_row v) (leave_requests db) = []"
  obtains request step where
    "create_leave cx v db =
       (Reply 201 (RequestId (lr_id request)),
        db \<lparr> leave_requests := leave_requests db @ [request],
             leave_validations := leave_validations db @ [step] \<rparr>)"
    "lr_employee_id request = l_employee_id v"
    "lr_date_debut request = l_date_debut v" "lr_date_fin request = l_date_fin v"
    "request_id step = lr_id request"
    "niveau_validation step = Soumission_Employe"
    "decision step = En_attente"
proof -
  let ?request = "\<lparr> lr_id = insertId (map lr_id (leave_requests db)),
      lr_employee_id = l_employee_id v, lr_type_conge = l_type_conge v,
      lr_date_debut = l_date_debut v, lr_date_fin = l_date_fin v, lr_nb_jours = l_nb_jours v,
      lr_motif_employe = (if truthy_str (l_motif_employe v) then l_motif_employe v else None),
      statut_actuel = Soumis \<rparr>"
  let ?step = "\<lparr> request_id = insertId (map lr_id (leave_requests db)), validateur_id = user cx,
      niveau_validation = Soumission_Employe, decision = En_attente,
      lv_commentaire = js ''Demande soumise par l'' @ [0x27] @ js ''employ'' @ e_acute @ js ''.'' \<rparr>"
  have "create_leave cx v db =
       (Reply 201 (RequestId (lr_id ?request)),
        db \<lparr> leave_requests := leave_requests db @ [?request],
             leave_validations := leave_validations db @ [?step] \<rparr>)"
    using assms by (simp add: create_leave_def Let_def)
  then show thesis
    by (rule that) simp_all
qed

text \<open>
  Claim C6 says that every submission whose dates overlap a pending or approved request of
  the same employee is answered with 409. The handler first requires the employee to have
  the status \<open>Actif\<close>: for the sample employee, put on the status \<open>Conge\<close> after the first
  request, a submission inside that request is answered with 404.
\<close>
theorem C6_inactive_employee_counterexample:
  "map (\<lambda>r. (lr_employee_id r, statut_actuel r, lr_date_debut r, lr_date_fin r))
       (leave_requests db_on_leave) = [(1, Soumis, midnight 200, midnight 210)] \<and>
   create_leave (day 170) leave_inside db_on_leave
     = (Reply 404 Message, db_on_leave)"
proof
  show "map (\<lambda>r. (lr_employee_id r, statut_actuel r, lr_date_debut r, lr_date_fin r))
       (leave_requests db_on_leave) = [(1, Soumis, midnight 200, midnight 210)]"
    by code_simp
  show "create_leave (day 170) leave_inside db_on_leave
     = (Reply 404 Message, db_on_leave)"
    by code_simp
qed

text \<open>
  Claim C6, amended. A submission that fails the schema is answered with 400 and one for an
  employee who is not active with 404. A valid submission by an active employee whose date
  range shares an instant with a request of the same employee in status \<open>Soumis\<close>, \<open>En attente\<close>
  or \<open>Approuve\<close> (containment in either direction and partial overlap included) is answered
  with 409. In the three cases nothing is inserted. A valid submission by an active employee
  that shares no instant with such a request (the stored ranges being ordered, as the schema
  makes them) inserts the request and exactly one validation step for it, at level
  \<open>Soumission Employe\<close> with decision \<open>En attente\<close>, in the same step.
\<close>
theorem C6_leave_submission:
  "(\<not> leaveRequestSchema cx v \<longrightarrow> create_leave cx v db = (Reply 400 Message, db))
   \<and> (leaveRequestSchema cx v
        \<and> \<not> (\<exists>e \<in> set (employees db). e_id e = l_employee_id v \<and> statut e = Actif)
      \<longrightarrow> create_leave cx v db = (Reply 404 Message, db))
   \<and> (leaveRequestSchema cx v
        \<and> (\<exists>e \<in> set (employees db). e_id e = l_employee_id v \<and> statut e = Actif)
        \<and> (\<exists>r \<in> set (leave_requests db).
              lr_employee_id r = l_employee_id v
              \<and> statut_actuel r \<in> {Soumis, En_attente, Approuve}
              \<and> (\<exists>x. between x (l_date_debut v) (l_date_fin v)
                      \<and> between x (lr_date_debut r) (lr_date_fin r)))
      \<longrightarrow> create_leave cx v db = (Reply 409 Message, db))
   \<and> (leaveRequestSchema cx v
        \<and> (\<exists>e \<in> set (employees db). e_id e = l_employee_id v \<and> statut e = Actif)
        \<and> (\<forall>r \<in> set (leave_requests db). lr_date_debut r \<le> lr_date_fin r)
        \<and> (\<forall>r \<in> set (leave_requests db).
              lr_employee_id r = l_employee_id v
              \<and> statut_actuel r \<in> {Soumis, En_attente, Approuve}
              \<longrightarrow> \<not> (\<exists>x. between x (l_date_debut v) (l_date_fin v)
                        \<and> between x (lr_date_debut r) (lr_date_fin r)))
      \<longrightarrow> (\<exists>request step.
            create_leave cx v db =
              (Reply 201 (RequestId (lr_id request)),
               db \<lparr> leave_requests := leave_requests db @ [request],
                    leave_validations := leave_validations db @ [step] \<rparr>)
            \<and> lr_employee_id request = l_employee_id v
            \<and> lr_date_debut request = l_date_debut v \<and> lr_date_fin request = l_date_fin v
            \<and> request_id step = lr_id request
            \<and> niveau_validation step = Soumission_Employe
            \<and> decision step = En_attente))"
proof (intro conjI impI)
  assume "\<not> leaveRequestSchema cx v"
  then show "create_leave cx v db = (Reply 400 Message, db)"
    by (simp add: create_leave_def)
next
  assume "leaveRequestSchema cx v
        \<and> \<not> (\<exists>e \<in> set (employees db). e_id e = l_employee_id v \<and> statut e = Actif)"
  then show "create_leave cx v db = (Reply 404 Message, db)"
    by (simp add: create_leave_def active_filter)
next
  assume a: "leaveRequestSchema cx v
        \<and> (\<exists>e \<in> set (employees db). e_id e = l_employee_id v \<and> statut e = Actif)
        \<and> (\<exists>r \<in> set (leave_requests db).
              lr_employee_id r = l_employee_id v
              \<and> statut_actuel r \<in> {Soumis, En_attente, Approuve}
              \<and> (\<exists>x. between x (l_date_debut v) (l_date_fin v)
                      \<and> between x (lr_date_debut r) (lr_date_fin r)))"
  then obtain r where "r \<in> set (leave_requests db)" "overlap_row v r"
    using overlap_row_if by blast
  then have "filter (overlap_row v) (leave_requests db) \<noteq> []"
    by (auto simp: filter_empty_conv)
  moreover from a have "leaveRequestSchema cx v"
    "filter (\<lambda>e. e_id e = l_employee_id v \<and> statut e = Actif) (employees db) \<noteq> []"
    by (simp_all add: active_filter)
  ultimately show "create_leave cx v db = (Reply 409 Message, db)"
    by (simp add: create_leave_def)
next
  assume a: "leaveRequestSchema cx v
        \<and> (\<exists>e \<in> set (employees db). e_id e = l_employee_id v \<and> statut e = Actif)
        \<and> (\<forall>r \<in> set (leave_requests db). lr_date_debut r \<le> lr_date_fin r)
        \<and> (\<forall>r \<in> set (leave_requests db).
              lr_employee_id r = l_employee_id v
              \<and> statut_actuel r \<in> {Soumis, En_attente, Approuve}
              \<longrightarrow> \<not> (\<exists>x. between x (l_date_debut v) (l_date_fin v)
                        \<and> between x (lr_date_debut r) (lr_date_fin r)))"
  then have s: "leaveRequestSchema cx v" and
    act: "filter (\<lambda>e. e_id e = l_employee_id v \<and> statut e = Actif) (employees db) \<noteq> []"
    by (simp_all add: active_filter)
  from s have ord: "l_date_debut v \<le> l_date_fin v"
    by (simp add: leaveRequestSchema_def)
  have "\<not> overlap_row v r" if "r \<in> set (leave_requests db)" for r
  proof -
    from a that have "lr_date_debut r \<le> lr_date_fin r" by blast
    from overlap_row_iff [OF ord this] a that show ?thesis by blast
  qed
  then have none: "filter (overlap_row v) (leave_requests db) = []"
    by (simp add: filter_empty_conv)
  show "\<exists>request step.
            create_leave cx v db =
              (Reply 201 (RequestId (lr_id request)),
               db \<lparr> leave_requests := leave_requests db @ [request],
                    leave_validations := leave_validations db @ [step] \<rparr>)
            \<and> lr_employee_id request = l_employee_id v
            \<and> lr_date_debut request = l_date_debut v \<and> lr_date_fin request = l_date_fin v
            \<and> request_id step = lr_id request
            \<and> niveau_validation step = Soumission_Employe
            \<and> decision step = En_attente"
    using create_leave_inserted [OF s act none] by metis
qed


text \<open>The four cases of the amended C6 on the sample stores.\<close>
theorem C6_leave_submission_witness:
  "\<not> leaveRequestSchema (day 207) leave_inside \<and>
   create_leave (day 207) leave_inside db_with_leave = (Reply 400 Message, db_with_leave) \<and>
   (leaveRequestSchema (day 170) leave_inside
     \<and> \<not> (\<exists>e \<in> set (employees db_on_leave). e_id e = l_employee_id leave_inside \<and> statut e = Actif)) \<and>
   create_leave (day 170) leave_inside db_on_leave = (Reply 404 Message, db_on_leave) \<and>
   (\<exists>e \<in> set (employees db_with_leave). e_id e = l_employee_id leave_inside \<and> statut e = Actif) \<and>
   (\<exists>r \<in> set (leave_requests db_with_leave).
       lr_employee_id r = l_employee_id leave_inside
       \<and> statut_actuel r \<in> {Soumis, En_attente, Approuve}
       \<and> between (midnight 205) (l_date_debut leave_inside) (l_date_fin leave_inside)
       \<and> between (midnight 205) (lr_date_debut r) (lr_date_fin r)) \<and>
   create_leave (day 170) leave_inside db_with_leave = (Reply 409 Message, db_with_leave) \<and>
   leaveRequestSchema (day 170) leave_after \<and>
   list_all (\<lambda>r. lr_date_debut r \<le> lr_date_fin r) (leave_requests db_with_leave) \<and>
   list_all (\<lambda>r. lr_date_fin r < l_date_debut leave_after) (leave_requests db_with_leave) \<and>
   fst (create_leave (day 170) leave_after db_with_leave) = Reply 201 (RequestId 2) \<and>
   length (leave_requests (snd (create_leave (day 170) leave_after db_with_leave))) = 2 \<and>
   map niveau_validation (leave_validations (snd (create_leave (day 170) leave_after db_with_leave)))
     = [Soumission_Employe, Soumission_Employe]"
proof -
  have h1: "\<not> leaveRequestSchema (day 207) leave_inside"
    by code_simp
  have r1: "create_leave (day 207) leave_inside db_with_leave = (Reply 400 Message, db_with_leave)"
    using C6_leave_submission [of "day 207" leave_inside db_with_leave] h1 by blast
  have h2: "leaveRequestSchema (day 170) leave_inside
     \<and> \<not> (\<exists>e \<in> set (employees db_on_leave). e_id e = l_employee_id leave_inside \<and> statut e = Actif)"
    by code_simp
  have r2: "create_leave (day 170) leave_inside db_on_leave = (Reply 404 Message, db_on_leave)"
    using C6_leave_submission [of "day 170" leave_inside db_on_leave] h2 by blast
  have h3a: "\<exists>e \<in> set (employees db_with_leave). e_id e = l_employee_id leave_inside \<and> statut e = Actif"
    by code_simp
  have h3b: "\<exists>r \<in> set (leave_requests db_with_leave).
       lr_employee_id r = l_employee_id leave_inside
       \<and> statut_actuel r \<in> {Soumis, En_attente, Approuve}
       \<and> between (midnight 205) (l_date_debut leave_inside) (l_date_fin leave_inside)
       \<and> between (midnight 205) (lr_date_debut r) (lr_date_fin r)"
    by code_simp
  then have h3c: "\<exists>r \<in> set (leave_requests db_with_leave).
       lr_employee_id r = l_employee_id leave_inside
       \<and> statut_actuel r \<in> {Soumis, En_attente, Approuve}
       \<and> (\<exists>x. between x (l_date_debut leave_inside) (l_date_fin leave_inside)
              \<and> between x (lr_date_debut r) (lr_date_fin r))"
    by blast
  have r3: "create_leave (day 170) leave_inside db_with_leave = (Reply 409 Message, db_with_leave)"
    using C6_leave_submission [of "day 170" leave_inside db_with_leave] h2 h3a h3c by blast
  have h4a: "leaveRequestSchema (day 170) leave_after"
    by code_simp
  have l4b: "list_all (\<lambda>r. lr_date_debut r \<le> lr_date_fin r) (leave_requests db_with_leave)"
    by code_simp
  have l4c: "list_all (\<lambda>r. lr_date_fin r < l_date_debut leave_after) (leave_requests db_with_leave)"
    by code_simp
  have h4b: "\<forall>r \<in> set (leave_requests db_with_leave). lr_date_debut r \<le> lr_date_fin r"
    using l4b unfolding list_all_iff .
  have h4c: "\<forall>r \<in> set (leave_requests db_with_leave). lr_date_fin r < l_date_debut leave_after"
    using l4c unfolding list_all_iff .
  have h4d: "\<forall>r \<in> set (leave_requests db_with_leave).
              lr_employee_id r = l_employee_id leave_after
              \<and> statut_actuel r \<in> {Soumis, En_attente, Approuve}
              \<longrightarrow> \<not> (\<exists>x. between x (l_date_debut leave_after) (l_date_fin leave_after)
                        \<and> between x (lr_date_debut r) (lr_date_fin r))"
    using h4c unfolding between_def by fastforce
  have h4e: "\<exists>e \<in> set (employees db_with_leave). e_id e = l_employee_id leave_after \<and> statut e = Actif"
    by code_simp
  obtain request step where ins:
    "create_leave (day 170) leave_after db_with_leave =
              (Reply 201 (RequestId (lr_id request)),
               db_with_leave \<lparr> leave_requests := leave_requests db_with_leave @ [request],
                    leave_validations := leave_validations db_with_leave @ [step] \<rparr>)"
    "niveau_validation step = Soumission_Employe"
    using C6_leave_submission [of "day 170" leave_after db_with_leave] h4a h4b h4d h4e by blast
  have r4: "fst (create_leave (day 170) leave_after db_with_leave) = Reply 201 (RequestId 2)"
    by code_simp
  have l1: "length (leave_requests db_with_leave) = 1"
    "map niveau_validation (leave_validations db_with_leave) = [Soumission_Employe]"
    by code_simp+
  have r5: "length (leave_requests (snd (create_leave (day 170) leave_after db_with_leave))) = 2"
    "map niveau_validation (leave_validations (snd (create_leave (day 170) leave_after db_with_leave)))
     = [Soumission_Employe, Soumission_Employe]"
    unfolding ins(1) using l1 ins(2) by simp_all
  from h1 r1 h2 r2 h3a h3b r3 h4a l4b l4c r4 r5 show ?thesis by blast
qed

text \<open>
  The stored ranges are ordered in every store reached from an empty one: only the leave
  route writes to \<^verbatim>\<open>leave_requests\<close>, and its schema orders the two dates.
\<close>

lemma leave_requests_step:
  assumes "list_all (\<lambda>r. lr_date_debut r \<le> lr_date_fin r) (leave_requests db)"
  shows "list_all (\<lambda>r. lr_date_debut r \<le> lr_date_fin r) (leave_requests (snd (handle cfg q db)))"
proof (cases q)
  case (Hire cx v)
  show ?thesis
  proof (cases rule: create_employee_cases [of cfg cx v db])
    case rejected
    with assms Hire show ?thesis by simp
  next
    case (created row)
    with assms Hire show ?thesis by simp
  qed
next
  case (Update cx i u)
  show ?thesis
  proof (cases rule: update_employee_cases [of cx i u db])
    case rejected
    with assms Update show ?thesis by simp
  next
    case (applied cur rest)
    from update_employee_applied(4) [OF applied, of cx] assms Update show ?thesis by simp
  qed
next
  case (Archive cx i)
  show ?thesis
  proof (cases rule: archive_employee_cases [of cfg cx i db])
    case rejected
    with assms Archive show ?thesis by simp
  next
    case archived
    with assms Archive show ?thesis by simp
  qed
next
  case (Leave cx v)
  show ?thesis
  proof (cases "leaveRequestSchema cx v")
    case False
    with assms Leave show ?thesis by (simp add: create_leave_def)
  next
    case True
    then have "l_date_debut v \<le> l_date_fin v"
      by (simp add: leaveRequestSchema_def)
    with assms Leave show ?thesis
      by (simp add: create_leave_def Let_def)
  qed
next
  case (Contract v)
  with assms show ?thesis
    by (simp add: create_contract_def Let_def)
qed

lemma leave_requests_ordered:
  "\<forall>r \<in> set (leave_requests (run cfg qs (empty_db ss ds vs ts))).
      lr_date_debut r \<le> lr_date_fin r"
proof -
  have "list_all (\<lambda>r. lr_date_debut r \<le> lr_date_fin r) (leave_requests db) \<Longrightarrow>
      list_all (\<lambda>r. lr_date_debut r \<le> lr_date_fin r) (leave_requests (run cfg qs db))" for db
  proof (induction qs arbitrary: db)
    case Nil
    then show ?case by simp
  next
    case (Cons q qs)
    from Cons.prems have "list_all (\<lambda>r. lr_date_debut r \<le> lr_date_fin r)
        (leave_requests (snd (handle cfg q db)))"
      by (rule leave_requests_step)
    then show ?case unfolding run.simps by (rule Cons.IH)
  qed
  then have "list_all (\<lambda>r. lr_date_debut r \<le> lr_date_fin r)
      (leave_requests (run cfg qs (empty_db ss ds vs ts)))"
    by (simp add: empty_db_def)
  then show ?thesis by (simp add: list_all_iff)
qed

section \<open>Properties of the contract route\<close>

lemma main_contract_filter:
  "(filter (\<lambda>c. c_employee_id c = i \<and> c_statut c = js ''Actif'' \<and> \<not> c_is_avenant c) rows = [])
     = (\<not> (\<exists>c \<in> set rows. c_employee_id c = i \<and> c_statut c = js ''Actif'' \<and> \<not> c_is_avenant c))"
  by (simp add: filter_empty_conv)

lemma create_contract_inserted:
  assumes "contractSchema v"
    and "\<exists>e \<in> set (employees db). e_id e = k_employee_id v \<and> statut e = Actif"
    and "k_is_avenant v \<or> \<not> (\<exists>c \<in> set (contracts db).
           c_employee_id c = k_employee_id v \<and> c_statut c = js ''Actif'' \<and> \<not> c_is_avenant c)"
  obtains row where
    "create_contract cfg v db =
       (Reply 201 (ContractId (c_id row)),
        db \<lparr> contracts := contracts db @ [row],
             employees :=
               (if k_is_avenant v then employees db
                else update_where (\<lambda>e. e_id e = k_employee_id v)
                       (\<lambda>e. e \<lparr> position_id := Some (k_position_id v) \<rparr>) (employees db)) \<rparr>)"
    "c_employee_id row = k_employee_id v" "c_position_id row = k_position_id v"
    "c_is_avenant row = k_is_avenant v"
proof -
  let ?row = "\<lparr> c_id = insertId (map c_id (contracts db)), c_employee_id = k_employee_id v,
                     c_type_contrat = k_type_contrat v, c_date_debut = k_date_debut v,
                     c_date_fin_prevue = k_date_fin_prevue v, c_position_id = k_position_id v,
                     c_salaire_de_base = k_salaire_de_base v, c_is_avenant = k_is_avenant v,
                     c_parent_contract_id =
                       (case k_parent_contract_id v of None \<Rightarrow> None | Some p \<Rightarrow> p),
                     c_statut = contracts_statut_default cfg \<rparr>"
  have act: "filter (\<lambda>e. e_id e = k_employee_id v \<and> statut e = Actif) (employees db) \<noteq> []"
    using assms(2) by (simp add: filter_empty_conv)
  have "create_contract cfg v db =
       (Reply 201 (ContractId (c_id ?row)),
        db \<lparr> contracts := contracts db @ [?row],
             employees :=
               (if k_is_avenant v then employees db
                else update_where (\<lambda>e. e_id e = k_employee_id v)
                       (\<lambda>e. e \<lparr> position_id := Some (k_position_id v) \<rparr>) (employees db)) \<rparr>)"
  proof (cases "k_is_avenant v")
    case True
    then show ?thesis
      using assms(1) act by (simp add: create_contract_def Let_def)
  next
    case False
    with assms(3) have "filter (\<lambda>c. c_employee_id c = k_employee_id v \<and> c_statut c = js ''Actif''
        \<and> \<not> c_is_avenant c) (contracts db) = []"
      by (simp only: main_contract_filter) simp
    then show ?thesis
      using False assms(1) act by (simp add: create_contract_def Let_def)
  qed
  then show thesis
    by (rule that) simp_all
qed

text \<open>
  Claim C7 says that every creation of a main contract for an employee who already has an
  active main contract is answered with 409. The handler first requires the employee to
  have the status \<open>Actif\<close>: for the sample employee, suspended after the first contract, the
  second one is answered with 404.
\<close>
theorem C7_inactive_employee_counterexample:
  "map (\<lambda>c. (c_employee_id c, c_statut c, c_is_avenant c)) (contracts db_suspended)
     = [(1, js ''Actif'', False)] \<and>
   k_is_avenant contract0 = False \<and>
   create_contract cfg0 contract0 db_suspended = (Reply 404 Message, db_suspended)"
proof (intro conjI)
  show "map (\<lambda>c. (c_employee_id c, c_statut c, c_is_avenant c)) (contracts db_suspended)
     = [(1, js ''Actif'', False)]"
    by code_simp
  show "k_is_avenant contract0 = False"
    by code_simp
  show "create_contract cfg0 contract0 db_suspended = (Reply 404 Message, db_suspended)"
    by code_simp
qed

text \<open>
  Claim C7, amended. A request that fails the schema is answered with 400 and one for an
  employee who is not active with 404. A valid request with \<^verbatim>\<open>is_avenant = false\<close> for an
  active employee who has an active contract that is not an amendment is answered with 409.
  In the three cases nothing is inserted. A valid request with \<^verbatim>\<open>is_avenant = false\<close> for
  an active employee without such a contract inserts the contract and writes its position
  on the live row of the employee. An amendment for an active employee is inserted whatever
  contracts exist, and the rows of the employees are left as they are.
\<close>
theorem C7_contract_creation:
  "(\<not> contractSchema v \<longrightarrow> create_contract cfg v db = (Reply 400 Message, db))
   \<and> (contractSchema v
        \<and> \<not> (\<exists>e \<in> set (employees db). e_id e = k_employee_id v \<and> statut e = Actif)
      \<longrightarrow> create_contract cfg v db = (Reply 404 Message, db))
   \<and> (contractSchema v
        \<and> (\<exists>e \<in> set (employees db). e_id e = k_employee_id v \<and> statut e = Actif)
        \<and> \<not> k_is_avenant v
        \<and> (\<exists>c \<in> set (contracts db).
              c_employee_id c = k_employee_id v \<and> c_statut c = js ''Actif'' \<and> \<not> c_is_avenant c)
      \<longrightarrow> create_contract cfg v db = (Reply 409 Message, db))
   \<and> (contractSchema v
        \<and> (\<exists>e \<in> set (employees db). e_id e = k_employee_id v \<and> statut e = Actif)
        \<and> \<not> k_is_avenant v
        \<and> \<not> (\<exists>c \<in> set (contracts db).
              c_employee_id c = k_employee_id v \<and> c_statut c = js ''Actif'' \<and> \<not> c_is_avenant c)
      \<longrightarrow> (\<exists>row.
            create_contract cfg v db =
              (Reply 201 (ContractId (c_id row)),
               db \<lparr> contracts := contracts db @ [row],
                    employees :=
                      update_where (\<lambda>e. e_id e = k_employee_id v)
                        (\<lambda>e. e \<lparr> position_id := Some (k_position_id v) \<rparr>) (employees db) \<rparr>)
            \<and> c_employee_id row = k_employee_id v \<and> c_position_id row = k_position_id v
            \<and> \<not> c_is_avenant row))
   \<and> (contractSchema v
        \<and> (\<exists>e \<in> set (employees db). e_id e = k_employee_id v \<and> statut e = Actif)
        \<and> k_is_avenant v
      \<longrightarrow> (\<exists>row.
            create_contract cfg v db =
              (Reply 201 (ContractId (c_id row)), db \<lparr> contracts := contracts db @ [row] \<rparr>)
            \<and> c_employee_id row = k_employee_id v \<and> c_is_avenant row))"
proof (intro conjI impI)
  assume "\<not> contractSchema v"
  then show "create_contract cfg v db = (Reply 400 Message, db)"
    by (simp add: create_contract_def)
next
  assume "contractSchema v
        \<and> \<not> (\<exists>e \<in> set (employees db). e_id e = k_employee_id v \<and> statut e = Actif)"
  then have "contractSchema v"
    "filter (\<lambda>e. e_id e = k_employee_id v \<and> statut e = Actif) (employees db) = []"
    by (simp_all add: filter_empty_conv)
  then show "create_contract cfg v db = (Reply 404 Message, db)"
    by (simp add: create_contract_def)
next
  assume a: "contractSchema v
        \<and> (\<exists>e \<in> set (employees db). e_id e = k_employee_id v \<and> statut e = Actif)
        \<and> \<not> k_is_avenant v
        \<and> (\<exists>c \<in> set (contracts db).
              c_employee_id c = k_employee_id v \<and> c_statut c = js ''Actif'' \<and> \<not> c_is_avenant c)"
  then have "contractSchema v" "\<not> k_is_avenant v"
    "filter (\<lambda>e. e_id e = k_employee_id v \<and> statut e = Actif) (employees db) \<noteq> []"
    by (simp_all add: filter_empty_conv)
  moreover from a have "filter (\<lambda>c. c_employee_id c = k_employee_id v \<and> c_statut c = js ''Actif''
        \<and> \<not> c_is_avenant c) (contracts db) \<noteq> []"
    by (simp only: main_contract_filter) simp
  ultimately show "create_contract cfg v db = (Reply 409 Message, db)"
    by (simp add: create_contract_def)
next
  assume a: "contractSchema v
        \<and> (\<exists>e \<in> set (employees db). e_id e = k_employee_id v \<and> statut e = Actif)
        \<and> \<not> k_is_avenant v
        \<and> \<not> (\<exists>c \<in> set (contracts db).
              c_employee_id c = k_employee_id v \<and> c_statut c = js ''Actif'' \<and> \<not> c_is_avenant c)"
  then have s: "contractSchema v"
    and e: "\<exists>e \<in> set (employees db). e_id e = k_employee_id v \<and> statut e = Actif"
    and n: "\<not> k_is_avenant v"
    and c: "k_is_avenant v \<or> \<not> (\<exists>c \<in> set (contracts db).
           c_employee_id c = k_employee_id v \<and> c_statut c = js ''Actif'' \<and> \<not> c_is_avenant c)"
    by blast+
  obtain row where row: "create_contract cfg v db =
       (Reply 201 (ContractId (c_id row)),
        db \<lparr> contracts := contracts db @ [row],
             employees :=
               (if k_is_avenant v then employees db
                else update_where (\<lambda>e. e_id e = k_employee_id v)
                       (\<lambda>e. e \<lparr> position_id := Some (k_position_id v) \<rparr>) (employees db)) \<rparr>)"
    "c_employee_id row = k_employee_id v" "c_position_id row = k_position_id v"
    "c_is_avenant row = k_is_avenant v"
    by (rule create_contract_inserted [OF s e c])
  from row n show "\<exists>row.
            create_contract cfg v db =
              (Reply 201 (ContractId (c_id row)),
               db \<lparr> contracts := contracts db @ [row],
                    employees :=
                      update_where (\<lambda>e. e_id e = k_employee_id v)
                        (\<lambda>e. e \<lparr> position_id := Some (k_position_id v) \<rparr>) (employees db) \<rparr>)
            \<and> c_employee_id row = k_employee_id v \<and> c_position_id row = k_position_id v
            \<and> \<not> c_is_avenant row"
    by (intro exI [of _ row]) simp
next
  assume a: "contractSchema v
        \<and> (\<exists>e \<in> set (employees db). e_id e = k_employee_id v \<and> statut e = Actif)
        \<and> k_is_avenant v"
  then have s: "contractSchema v"
    and e: "\<exists>e \<in> set (employees db). e_id e = k_employee_id v \<and> statut e = Actif"
    and n: "k_is_avenant v"
    and c: "k_is_avenant v \<or> \<not> (\<exists>c \<in> set (contracts db).
           c_employee_id c = k_employee_id v \<and> c_statut c = js ''Actif'' \<and> \<not> c_is_avenant c)"
    by blast+
  obtain row where row: "create_contract cfg v db =
       (Reply 201 (ContractId (c_id row)),
        db \<lparr> contracts := contracts db @ [row],
             employees :=
               (if k_is_avenant v then employees db
                else update_where (\<lambda>e. e_id e = k_employee_id v)
                       (\<lambda>e. e \<lparr> position_id := Some (k_position_id v) \<rparr>) (employees db)) \<rparr>)"
    "c_employee_id row = k_employee_id v" "c_position_id row = k_position_id v"
    "c_is_avenant row = k_is_avenant v"
    by (rule create_contract_inserted [OF s e c])
  from row n show "\<exists>row.
            create_contract cfg v db =
              (Reply 201 (ContractId (c_id row)), db \<lparr> contracts := contracts db @ [row] \<rparr>)
            \<and> c_employee_id row = k_employee_id v \<and> c_is_avenant row"
    by (intro exI [of _ row]) simp
qed


text \<open>The five cases of the amended C7 on the sample stores.\<close>
theorem C7_contract_creation_witness:
  "\<not> contractSchema (contract0 \<lparr> k_position_id := 0 \<rparr>) \<and>
   create_contract cfg0 (contract0 \<lparr> k_position_id := 0 \<rparr>) db_hired = (Reply 400 Message, db_hired) \<and>
   (contractSchema contract0
     \<and> \<not> (\<exists>e \<in> set (employees db_suspended). e_id e = k_employee_id contract0 \<and> statut e = Actif)) \<and>
   create_contract cfg0 contract0 db_suspended = (Reply 404 Message, db_suspended) \<and>
   (\<exists>e \<in> set (employees db_contract). e_id e = k_employee_id contract0 \<and> statut e = Actif) \<and>
   \<not> k_is_avenant contract0 \<and>
   (\<exists>c \<in> set (contracts db_contract).
       c_employee_id c = k_employee_id contract0 \<and> c_statut c = js ''Actif'' \<and> \<not> c_is_avenant c) \<and>
   create_contract cfg0 contract0 db_contract = (Reply 409 Message, db_contract) \<and>
   (\<exists>e \<in> set (employees db_hired). e_id e = k_employee_id contract0 \<and> statut e = Actif) \<and>
   \<not> (\<exists>c \<in> set (contracts db_hired).
       c_employee_id c = k_employee_id contract0 \<and> c_statut c = js ''Actif'' \<and> \<not> c_is_avenant c) \<and>
   map position_id (employees (snd (create_contract cfg0 contract0 db_hired))) = [Some 5] \<and>
   length (contracts (snd (create_contract cfg0 contract0 db_hired))) = 1 \<and>
   (contractSchema avenant0 \<and> k_is_avenant avenant0) \<and>
   employees (snd (create_contract cfg0 avenant0 db_contract)) = employees db_contract \<and>
   length (contracts (snd (create_contract cfg0 avenant0 db_contract))) = 2"
proof -
  have h1: "\<not> contractSchema (contract0 \<lparr> k_position_id := 0 \<rparr>)"
    by code_simp
  have r1: "create_contract cfg0 (contract0 \<lparr> k_position_id := 0 \<rparr>) db_hired
      = (Reply 400 Message, db_hired)"
    using C7_contract_creation [of "contract0 \<lparr> k_position_id := 0 \<rparr>" cfg0 db_hired] h1 by blast
  have h2: "contractSchema contract0
     \<and> \<not> (\<exists>e \<in> set (employees db_suspended). e_id e = k_employee_id contract0 \<and> statut e = Actif)"
    by code_simp
  have r2: "create_contract cfg0 contract0 db_suspended = (Reply 404 Message, db_suspended)"
    using C7_contract_creation [of contract0 cfg0 db_suspended] h2 by blast
  have h3a: "\<exists>e \<in> set (employees db_contract). e_id e = k_employee_id contract0 \<and> statut e = Actif"
    by code_simp
  have h3b: "\<not> k_is_avenant contract0"
    by code_simp
  have h3c: "\<exists>c \<in> set (contracts db_contract).
       c_employee_id c = k_employee_id contract0 \<and> c_statut c = js ''Actif'' \<and> \<not> c_is_avenant c"
    by code_simp
  have r3: "create_contract cfg0 contract0 db_contract = (Reply 409 Message, db_contract)"
    using C7_contract_creation [of contract0 cfg0 db_contract] h2 h3a h3b h3c by blast
  have h4a: "\<exists>e \<in> set (employees db_hired). e_id e = k_employee_id contract0 \<and> statut e = Actif"
    by code_simp
  have h4b: "\<not> (\<exists>c \<in> set (contracts db_hired).
       c_employee_id c = k_employee_id contract0 \<and> c_statut c = js ''Actif'' \<and> \<not> c_is_avenant c)"
    by code_simp
  obtain row where row: "create_contract cfg0 contract0 db_hired =
              (Reply 201 (ContractId (c_id row)),
               db_hired \<lparr> contracts := contracts db_hired @ [row],
                    employees :=
                      update_where (\<lambda>e. e_id e = k_employee_id contract0)
                        (\<lambda>e. e \<lparr> position_id := Some (k_position_id contract0) \<rparr>)
                        (employees db_hired) \<rparr>)"
    using C7_contract_creation [of contract0 cfg0 db_hired] h2 h4a h3b h4b by blast
  have e4: "map position_id (update_where (\<lambda>e. e_id e = k_employee_id contract0)
                        (\<lambda>e. e \<lparr> position_id := Some (k_position_id contract0) \<rparr>)
                        (employees db_hired)) = [Some 5]"
    "length (contracts db_hired) = 0"
    by code_simp+
  have r4: "map position_id (employees (snd (create_contract cfg0 contract0 db_hired))) = [Some 5]"
    "length (contracts (snd (create_contract cfg0 contract0 db_hired))) = 1"
    unfolding row using e4 by simp_all
  have h5: "contractSchema avenant0 \<and> k_is_avenant avenant0"
    by code_simp
  have h5a: "\<exists>e \<in> set (employees db_contract). e_id e = k_employee_id avenant0 \<and> statut e = Actif"
    by code_simp
  obtain row' where row': "create_contract cfg0 avenant0 db_contract =
              (Reply 201 (ContractId (c_id row')),
               db_contract \<lparr> contracts := contracts db_contract @ [row'] \<rparr>)"
    using C7_contract_creation [of avenant0 cfg0 db_contract] h5 h5a by blast
  have e5: "length (contracts db_contract) = 1"
    by code_simp
  have r5: "employees (snd (create_contract cfg0 avenant0 db_contract)) = employees db_contract"
    "length (contracts (snd (create_contract cfg0 avenant0 db_contract))) = 2"
    unfolding row' using e5 by simp_all
  from h1 r1 h2 r2 h3a h3b h3c r3 h4a h4b r4 h5 r5 show ?thesis by blast
qed

end
